theory Spec2Isabelle
  imports Main
begin

section \<open>Errors and driver calls\<close>

text \<open>
  \<open>src/openai-auth.ts\<close> drives a browser through Puppeteer.  Every awaited driver call
  either returns or throws; what it does is decided by the page, not by the program.  The
  model therefore takes the page's answers as an argument and records the driver calls the
  program attempts, in order, as a list of actions.

  \<open>types.ChatGPTError\<close> is an \<open>Error\<close> with a message and a settable \<open>statusCode\<close>,
  \<open>TimeoutError\<close> is the class of \<open>p-timeout\<close>, a \<open>JsError\<close> is a plain \<open>Error\<close> with
  its message, and a \<open>NamedError\<close> is an error of any other class (the driver's own
  \<open>TimeoutError\<close>, a \<open>TypeError\<close>) with its \<open>name\<close> and its message.
\<close>

datatype error =
    ChatGPTError string "int option"
  | TimeoutError string
  | JsError string
  | NamedError string string

fun statusCode :: "error \<Rightarrow> int option" where
  "statusCode (ChatGPTError msg code) = code"
| "statusCode (TimeoutError msg) = None"
| "statusCode (JsError msg) = None"
| "statusCode (NamedError name msg) = None"

datatype action =
    Query string              \<comment> \<open>\<open>page.$(selector)\<close>\<close>
  | XPath string              \<comment> \<open>\<open>page.$x(expression)\<close>\<close>
  | ClickHandle string        \<comment> \<open>\<open>click\<close> on the element handle found by the selector\<close>
  | Delay int                 \<comment> \<open>\<open>delay(ms)\<close>\<close>
  | Reload int                \<comment> \<open>\<open>page.reload({waitUntil: 'networkidle2', timeout})\<close>\<close>

section \<open>solveSimpleCaptchas\<close>

text \<open>
  What the page answers to one run of \<open>solveSimpleCaptchas\<close>: each \<open>page.$\<close> throws or
  tells whether an element was found, each click throws or succeeds.
\<close>

record captcha_probe =
  verifyYouAreHuman :: "error + bool"
  verifyYouAreHumanClick :: "error option"
  cloudflareButton :: "error + bool"
  cloudflareButtonClick :: "error option"

text \<open>
  One found element: pause, click, pause.  \<open>Inl\<close> carries the calls made up to a throwing
  click; the surrounding \<open>try\<close> then ends the function.
\<close>

definition clickCaptcha :: "string \<Rightarrow> error option \<Rightarrow> action list + action list" where
  "clickCaptcha sel click =
     (case click of
        Some err \<Rightarrow> Inl [Delay 2000, ClickHandle sel]
      | None \<Rightarrow> Inr [Delay 2000, ClickHandle sel, Delay 1000])"

text \<open>The whole body sits in \<open>try { ... } catch (err) { }\<close>: it never throws.\<close>

definition solveSimpleCaptchas :: "captcha_probe \<Rightarrow> action list" where
  "solveSimpleCaptchas p =
     (case verifyYouAreHuman p of
        Inl err \<Rightarrow> [Query ''text=Verify you are human'']
      | Inr found1 \<Rightarrow>
          (case (if found1
                 then clickCaptcha ''text=Verify you are human'' (verifyYouAreHumanClick p)
                 else Inr []) of
             Inl acts1 \<Rightarrow> Query ''text=Verify you are human'' # acts1
           | Inr acts1 \<Rightarrow>
               Query ''text=Verify you are human'' # acts1 @
               (case cloudflareButton p of
                  Inl err \<Rightarrow> [Query ''.hcaptcha-box'']
                | Inr found2 \<Rightarrow>
                    (case (if found2
                           then clickCaptcha ''.hcaptcha-box'' (cloudflareButtonClick p)
                           else Inr []) of
                       Inl acts2 \<Rightarrow> Query ''.hcaptcha-box'' # acts2
                     | Inr acts2 \<Rightarrow> Query ''.hcaptcha-box'' # acts2))))"

section \<open>checkForChatGPTAtCapacity\<close>

text \<open>
  One polling cycle as the page answers it: the captcha probes, the result of
  \<open>page.$x("//div[contains(., 'ChatGPT is at capacity')]")\<close> (a throw, or the length of the
  returned array) and the result of \<open>page.reload\<close>.  A page is the sequence of its
  answers, cycle by cycle.
\<close>

record cycle =
  captcha :: captcha_probe
  xpath :: "error + nat"
  reload :: "error option"

type_synonym page_answers = "nat \<Rightarrow> cycle"

record capacity_opts =
  timeoutMs :: "int option"
  pollingIntervalMs :: "int option"
  retries :: "int option"

definition capacityXPath :: string where
  "capacityXPath = ''//div[contains(., 'ChatGPT is at capacity')]''"

text \<open>
  The \<open>do { try { ... } catch { ++numTries; break } } while (isAtCapacity)\<close> loop.  The
  arguments are the three options after defaulting, the page, the index of the cycle about
  to run and the loop variables \<open>isAtCapacity\<close> and \<open>numTries\<close>; the result is the
  value of both variables at loop exit with the driver calls made.
\<close>

function capacityLoop ::
  "int \<Rightarrow> int \<Rightarrow> int \<Rightarrow> page_answers \<Rightarrow> nat \<Rightarrow> bool \<Rightarrow> int \<Rightarrow> bool \<times> int \<times> action list" where
  "capacityLoop tmo poll rts pg i isAtCapacity numTries =
     (let acts = solveSimpleCaptchas (captcha (pg i)) @ [XPath capacityXPath] in
      case xpath (pg i) of
        Inl err \<Rightarrow> (isAtCapacity, numTries + 1, acts)
      | Inr len \<Rightarrow>
          if len \<noteq> 0 then
            if numTries + 1 \<ge> rts then (True, numTries + 1, acts)
            else
              (case reload (pg i) of
                 Some err \<Rightarrow> (True, numTries + 2, acts @ [Reload tmo])
               | None \<Rightarrow>
                   (case capacityLoop tmo poll rts pg (i + 1) True (numTries + 1) of
                      (c, n, tr) \<Rightarrow> (c, n, acts @ [Reload tmo, Delay poll] @ tr)))
          else (False, numTries, acts))"
  by pat_completeness auto
termination
  by (relation "measure (\<lambda>(tmo, poll, rts, pg, i, c, n). nat (rts - n))") auto

definition atCapacityError :: error where
  "atCapacityError = ChatGPTError ''ChatGPT is at capacity'' (Some 503)"

text \<open>The destructuring defaults of the options.\<close>

definition capacityTimeoutMs :: "capacity_opts \<Rightarrow> int" where
  "capacityTimeoutMs opts = (case timeoutMs opts of None \<Rightarrow> 2 * 60 * 1000 | Some t \<Rightarrow> t)"

definition capacityPollingIntervalMs :: "capacity_opts \<Rightarrow> int" where
  "capacityPollingIntervalMs opts = (case pollingIntervalMs opts of None \<Rightarrow> 3000 | Some p \<Rightarrow> p)"

definition capacityRetries :: "capacity_opts \<Rightarrow> int" where
  "capacityRetries opts = (case retries opts of None \<Rightarrow> 10 | Some r \<Rightarrow> r)"

definition checkForChatGPTAtCapacity ::
  "capacity_opts \<Rightarrow> page_answers \<Rightarrow> (error + unit) \<times> action list" where
  "checkForChatGPTAtCapacity opts pg =
     (case capacityLoop (capacityTimeoutMs opts) (capacityPollingIntervalMs opts)
             (capacityRetries opts) pg 0 False 0 of
        (isAtCapacity, numTries, tr) \<Rightarrow>
          if isAtCapacity then (Inl atCapacityError, tr) else (Inr (), tr))"

text \<open>The call \<open>checkForChatGPTAtCapacity(page)\<close> with no options.\<close>

definition noOpts :: capacity_opts where
  "noOpts = \<lparr>timeoutMs = None, pollingIntervalMs = None, retries = None\<rparr>"

subsection \<open>Vocabulary for the properties of the guard\<close>

text \<open>The driver calls of one cycle up to and including the banner query.\<close>

definition cycleCalls :: "page_answers \<Rightarrow> nat \<Rightarrow> action list" where
  "cycleCalls pg k = solveSimpleCaptchas (captcha (pg k)) @ [XPath capacityXPath]"

text \<open>The banner is present in a cycle when the query returns a non-empty array.\<close>

definition bannerPresent :: "cycle \<Rightarrow> bool" where
  "bannerPresent c = (case xpath c of Inl err \<Rightarrow> False | Inr len \<Rightarrow> len \<noteq> 0)"

text \<open>The number of banner-detection cycles of a run: its banner queries.\<close>

definition detections :: "action list \<Rightarrow> nat" where
  "detections tr = length (filter (\<lambda>a. a = XPath capacityXPath) tr)"

text \<open>Pages used as concrete inputs: no captcha element anywhere.\<close>

definition noCaptcha :: captcha_probe where
  "noCaptcha = \<lparr>verifyYouAreHuman = Inr False, verifyYouAreHumanClick = None,
                cloudflareButton = Inr False, cloudflareButtonClick = None\<rparr>"

text \<open>The banner shows during the first \<open>R\<close> cycles and is gone afterwards; reloads succeed.\<close>

definition bannerFor :: "nat \<Rightarrow> page_answers" where
  "bannerFor R k = \<lparr>captcha = noCaptcha, xpath = Inr (if k < R then 1 else 0), reload = None\<rparr>"

text \<open>The banner shows in every cycle; reloads succeed.\<close>

definition bannerAlways :: page_answers where
  "bannerAlways k = \<lparr>captcha = noCaptcha, xpath = Inr 1, reload = None\<rparr>"


text \<open>The banner shows in the first cycle and the reload that follows throws.\<close>

definition bannerThenReloadThrows :: page_answers where
  "bannerThenReloadThrows k =
     \<lparr>captcha = noCaptcha, xpath = Inr 1, reload = Some (JsError ''Navigation failed'')\<rparr>"

section \<open>waitForConditionOrAtCapacity\<close>

text \<open>
  The function returns a promise whose executor starts \<open>condition()\<close> and arms a timer for
  \<open>waitForCapacityText\<close>.  Everything after that happens in callbacks, one at a time (a
  single event loop), so the promise is modelled by its state and by one step per callback:
  \<^item> \<open>ConditionFulfils\<close>, \<open>ConditionRejects err\<close>: the promise of \<open>condition()\<close> settles and
    its \<open>then\<close> or \<open>catch\<close> handler runs;
  \<^item> \<open>TimerFires\<close>: the timer calls \<open>waitForCapacityText\<close>, which returns at once when
    \<open>resolved\<close> is set and otherwise starts \<open>checkForChatGPTAtCapacity(page)\<close> and suspends;
  \<^item> \<open>CheckSettles pg\<close>: that check finishes, having met the page answers \<open>pg\<close>, and the
    rest of \<open>waitForCapacityText\<close> runs.

  The state holds the flag \<open>resolved\<close>, the calls made to \<open>resolve\<close> and \<open>reject\<close> in
  order, the delays of the \<open>setTimeout\<close> calls made, what is still pending, and the driver
  calls of the checks.
\<close>

datatype settlement = Fulfilled | Rejected error

datatype event =
    ConditionFulfils
  | ConditionRejects error
  | TimerFires
  | CheckSettles page_answers

record wait_state =
  resolved :: bool
  settlements :: "settlement list"
  timers :: "int list"
  conditionPending :: bool
  timerPending :: bool
  checkPending :: bool
  pollerCalls :: "action list"

text \<open>The state the executor leaves: \<open>condition()\<close> called, the first timer armed.\<close>

definition waitStart :: "int \<Rightarrow> wait_state" where
  "waitStart poll =
     \<lparr>resolved = False, settlements = [], timers = [poll], conditionPending = True,
      timerPending = True, checkPending = False, pollerCalls = []\<rparr>"

text \<open>One callback.  \<open>None\<close>: the event cannot happen in this state.\<close>

fun waitStep :: "int \<Rightarrow> wait_state \<Rightarrow> event \<Rightarrow> wait_state option" where
  "waitStep poll s ConditionFulfils =
     (if conditionPending s then
        Some (if \<not> resolved s
              then s\<lparr>conditionPending := False, resolved := True,
                     settlements := settlements s @ [Fulfilled]\<rparr>
              else s\<lparr>conditionPending := False\<rparr>)
      else None)"
| "waitStep poll s (ConditionRejects err) =
     (if conditionPending s then
        Some (if \<not> resolved s
              then s\<lparr>conditionPending := False, resolved := True,
                     settlements := settlements s @ [Rejected err]\<rparr>
              else s\<lparr>conditionPending := False\<rparr>)
      else None)"
| "waitStep poll s TimerFires =
     (if timerPending s then
        Some (if resolved s
              then s\<lparr>timerPending := False\<rparr>
              else s\<lparr>timerPending := False, checkPending := True\<rparr>)
      else None)"
| "waitStep poll s (CheckSettles pg) =
     (if checkPending s then
        (case checkForChatGPTAtCapacity noOpts pg of
           (Inr u, tr) \<Rightarrow>
             Some (if \<not> resolved s
                   then s\<lparr>checkPending := False, pollerCalls := pollerCalls s @ tr,
                          timerPending := True, timers := timers s @ [poll]\<rparr>
                   else s\<lparr>checkPending := False, pollerCalls := pollerCalls s @ tr\<rparr>)
         | (Inl err, tr) \<Rightarrow>
             Some (if \<not> resolved s
                   then s\<lparr>checkPending := False, pollerCalls := pollerCalls s @ tr,
                          resolved := True, settlements := settlements s @ [Rejected err]\<rparr>
                   else s\<lparr>checkPending := False, pollerCalls := pollerCalls s @ tr\<rparr>))
      else None)"

fun waitRun :: "int \<Rightarrow> wait_state \<Rightarrow> event list \<Rightarrow> wait_state option" where
  "waitRun poll s [] = Some s"
| "waitRun poll s (e # es) =
     (case waitStep poll s e of None \<Rightarrow> None | Some s' \<Rightarrow> waitRun poll s' es)"

text \<open>
  \<open>waitForConditionOrAtCapacity(page, condition, opts)\<close> followed by the given callbacks;
  \<open>pollingIntervalMs\<close> defaults to 500.
\<close>

definition waitPollingIntervalMs :: "int option \<Rightarrow> int" where
  "waitPollingIntervalMs p = (case p of None \<Rightarrow> 500 | Some v \<Rightarrow> v)"

definition waitForConditionOrAtCapacity :: "int option \<Rightarrow> event list \<Rightarrow> wait_state option" where
  "waitForConditionOrAtCapacity p es =
     waitRun (waitPollingIntervalMs p) (waitStart (waitPollingIntervalMs p)) es"

text \<open>What an \<open>await\<close> of the promise sees: nothing while it is pending, else its settlement.\<close>

definition awaited :: "wait_state option \<Rightarrow> settlement option" where
  "awaited r =
     (case r of
        None \<Rightarrow> None
      | Some s \<Rightarrow> (case settlements s of [] \<Rightarrow> None | x # xs \<Rightarrow> Some x))"

text \<open>What an event asks of the promise when it is the first to settle it.\<close>

fun asks :: "event \<Rightarrow> settlement option" where
  "asks ConditionFulfils = Some Fulfilled"
| "asks (ConditionRejects err) = Some (Rejected err)"
| "asks TimerFires = None"
| "asks (CheckSettles pg) =
     (case fst (checkForChatGPTAtCapacity noOpts pg) of
        Inr u \<Rightarrow> None
      | Inl err \<Rightarrow> Some (Rejected err))"

text \<open>What holds in every reachable state of the promise.\<close>

definition waitInv :: "wait_state \<Rightarrow> bool" where
  "waitInv s \<longleftrightarrow>
     length (settlements s) \<le> 1 \<and>
     (resolved s \<longleftrightarrow> settlements s \<noteq> []) \<and>
     (\<not> conditionPending s \<longrightarrow> resolved s)"

text \<open>States of a guarded wait with the default polling interval, used as concrete inputs.\<close>

definition afterTimer :: wait_state where
  "afterTimer =
     \<lparr>resolved = False, settlements = [], timers = [500], conditionPending = True,
      timerPending = False, checkPending = True, pollerCalls = []\<rparr>"

definition afterReturningCheck :: wait_state where
  "afterReturningCheck =
     \<lparr>resolved = False, settlements = [], timers = [500, 500], conditionPending = True,
      timerPending = True, checkPending = False,
      pollerCalls = [Query ''text=Verify you are human'', Query ''.hcaptcha-box'',
                     XPath capacityXPath]\<rparr>"

definition afterFulfilment :: wait_state where
  "afterFulfilment =
     \<lparr>resolved = True, settlements = [Fulfilled], timers = [500], conditionPending = False,
      timerPending = True, checkPending = False, pollerCalls = []\<rparr>"

text \<open>
  The settlement a sequence of callbacks leads to: what the first of them that asks for
  one asks.
\<close>

fun firstSettling :: "event list \<Rightarrow> settlement option" where
  "firstSettling [] = None"
| "firstSettling (e # es) = (case asks e of Some x \<Rightarrow> Some x | None \<Rightarrow> firstSettling es)"

text \<open>The state after a poll that returned and a condition that then timed out.\<close>

definition afterRejection :: wait_state where
  "afterRejection =
     \<lparr>resolved = True,
      settlements = [Rejected (NamedError ''TimeoutError'' ''Waiting for selector failed'')],
      timers = [500, 500], conditionPending = False, timerPending = True, checkPending = False,
      pollerCalls = [Query ''text=Verify you are human'', Query ''.hcaptcha-box'',
                     XPath capacityXPath]\<rparr>"

section \<open>The environment of a run\<close>

text \<open>
  Browsers and pages are handles; the model names them by numbers.  A run of
  \<open>getOpenAIAuth\<close> is decided by its arguments and by what its surroundings answer:
  the process environment, the driver (which call throws, what the value-returning calls
  return), the page as the capacity checks meet it, and the callbacks of the guarded waits.
  A driver call is identified by its source line and by the call made there.
\<close>

type_synonym browser_id = nat
type_synonym page_id = nat

datatype call =
    Probe action                             \<comment> \<open>a call of the capacity guard or of \<open>solveSimpleCaptchas\<close>\<close>
  | UseRecaptchaPlugin string                \<comment> \<open>\<open>puppeteer.use(RecaptchaPlugin({..., token}))\<close>\<close>
  | Launch "string list" string              \<comment> \<open>\<open>puppeteer.launch\<close>: \<open>args\<close>, \<open>executablePath\<close>\<close>
  | Pages browser_id                         \<comment> \<open>\<open>browser.pages()\<close>\<close>
  | NewPage browser_id                       \<comment> \<open>\<open>browser.newPage()\<close>\<close>
  | UserAgent browser_id                     \<comment> \<open>\<open>browser.userAgent()\<close>\<close>
  | Targets browser_id                       \<comment> \<open>\<open>browser.targets()\<close> and the host names read off them\<close>
  | SetDefaultTimeout int                    \<comment> \<open>\<open>page.setDefaultTimeout(ms)\<close>\<close>
  | MinimizePage                             \<comment> \<open>\<open>minimizePage(page)\<close>\<close>
  | Goto string                              \<comment> \<open>\<open>page.goto(url)\<close>\<close>
  | EvaluateFetch string                     \<comment> \<open>\<open>page.evaluate(() => fetch(url)...)\<close>\<close>
  | FindRecaptchas                           \<comment> \<open>\<open>page.findRecaptchas()\<close>\<close>
  | SolveRecaptchas                          \<comment> \<open>\<open>page.solveRecaptchas()\<close>\<close>
  | WaitForSelector string "int option"      \<comment> \<open>\<open>page.waitForSelector(sel, {timeout})\<close>\<close>
  | WaitForVisible string                    \<comment> \<open>\<open>page.waitForSelector(sel, {visible: true})\<close>\<close>
  | WaitForNavigation "int option"           \<comment> \<open>\<open>page.waitForNavigation({timeout})\<close>\<close>
  | Click string                             \<comment> \<open>\<open>page.click(sel)\<close>\<close>
  | TypeText string string                   \<comment> \<open>\<open>page.type(sel, text)\<close>\<close>
  | Press string                             \<comment> \<open>\<open>page.keyboard.press(key)\<close>\<close>
  | FrameFocus string                        \<comment> \<open>\<open>frame.focus(sel)\<close>\<close>
  | HandleFocus string                       \<comment> \<open>\<open>focus()\<close> on the element found by the selector\<close>
  | HandleClick string                       \<comment> \<open>\<open>click()\<close> on it\<close>
  | HandleValue string                       \<comment> \<open>\<open>evaluate((el) => el.value)\<close> on it\<close>
  | HandlePress string string                \<comment> \<open>\<open>press(key)\<close> on it\<close>
  | HandleType string string                 \<comment> \<open>\<open>type(text)\<close> on it\<close>
  | Pause int                                \<comment> \<open>\<open>delay(ms)\<close>\<close>
  | Cookies                                  \<comment> \<open>\<open>page.cookies()\<close>\<close>
  | ClosePage page_id                        \<comment> \<open>\<open>page.close()\<close>\<close>
  | CloseBrowser browser_id                  \<comment> \<open>\<open>browser.close()\<close>\<close>

text \<open>\<open>Protocol.Network.Cookie\<close>, with the fields the program reads and two more.\<close>

record cookie =
  cookieName :: string
  cookieValue :: string
  cookieDomain :: string
  cookiePath :: string

text \<open>What the page answers to \<open>waitForRecaptcha\<close>.\<close>

record recaptcha_answers =
  simpleCaptchas :: captcha_probe
  responseArea :: "error + bool"            \<comment> \<open>\<open>page.$('textarea#g-recaptcha-response')\<close>\<close>
  startTime :: int                           \<comment> \<open>the first \<open>Date.now()\<close>\<close>
  readings :: "((error + nat list) \<times> int) list"
    \<comment> \<open>per loop round: the value of the text area as its UTF-16 code units (or a throw)
        and the \<open>Date.now()\<close> after it\<close>

record env =
  CAPTCHA_TOKEN :: "string option"
  NOPECHA_KEY :: "string option"
  PROXY_SERVER :: "string option"
  PROXY_VALIDATE_IP :: "string option"
  PUPPETEER_EXECUTABLE_PATH :: "string option"
  platform :: string                         \<comment> \<open>\<open>os.platform()\<close>\<close>
  chromeExists :: bool                       \<comment> \<open>\<open>fs.existsSync('/usr/bin/google-chrome')\<close>\<close>
  nopechaPath :: string
    \<comment> \<open>\<open>path.join(__dirname, '..', 'third-party', 'nopecha-chrome-extension')\<close>\<close>
  throws :: "nat \<Rightarrow> call \<Rightarrow> error option"  \<comment> \<open>the call at this line throws this error\<close>
  launched :: browser_id                     \<comment> \<open>the browser \<open>puppeteer.launch\<close> returns\<close>
  openPages :: "nat \<Rightarrow> page_id list"        \<comment> \<open>what \<open>browser.pages()\<close> returns at this line\<close>
  createdPage :: "nat \<Rightarrow> page_id"          \<comment> \<open>what \<open>browser.newPage()\<close> returns at this line\<close>
  browserUserAgent :: string
  fetchedIp :: "string option"               \<comment> \<open>\<open>res?.ip\<close> of the \<open>ifconfig.co\<close> answer\<close>
  serviceWorkerHosts :: "error + string list"
    \<comment> \<open>the \<open>hostname\<close> of each \<open>service_worker\<close> target, or a throw of \<open>new URL\<close>\<close>
  settingsValue :: string                    \<comment> \<open>the \<open>value\<close> of \<open>input.settings_text\<close>\<close>
  recaptchasFiltered :: nat                  \<comment> \<open>\<open>captchas?.filtered?.length\<close> of \<open>findRecaptchas\<close>\<close>
  capacityPage :: "nat \<Rightarrow> page_answers"    \<comment> \<open>the page as the capacity check at this line meets it\<close>
  guardEvents :: "nat \<Rightarrow> event list"       \<comment> \<open>the callbacks of the guarded wait at this line\<close>
  secondRejectsFirst :: "nat \<Rightarrow> bool"
    \<comment> \<open>at the \<open>Promise.all\<close> of this line, the second promise rejects before the first\<close>
  recaptchaAnswers :: recaptcha_answers
  pageCookies :: "cookie list"               \<comment> \<open>what \<open>page.cookies()\<close> returns\<close>

text \<open>
  The module's two flags and the calls made so far.  An awaited operation returns, throws
  or never settles.
\<close>

record world =
  hasRecaptchaPlugin :: bool
  hasNopechaExtension :: bool
  calls :: "call list"

datatype 'a outcome = Returns 'a | Throws error | Hangs

type_synonym 'a io = "world \<Rightarrow> 'a outcome \<times> world"

definition logged :: "call list \<Rightarrow> world \<Rightarrow> world" where
  "logged cs w = w\<lparr>calls := calls w @ cs\<rparr>"

definition returns :: "'a \<Rightarrow> 'a io" where
  "returns x w = (Returns x, w)"

definition raise :: "error \<Rightarrow> 'a io" where
  "raise err w = (Throws err, w)"

text \<open>\<open>await m; f(result)\<close>: a throw or a hang of \<open>m\<close> ends the sequence.\<close>

definition andThen :: "'a io \<Rightarrow> ('a \<Rightarrow> 'b io) \<Rightarrow> 'b io" where
  "andThen m f w =
     (case m w of
        (Returns x, w') \<Rightarrow> f x w'
      | (Throws err, w') \<Rightarrow> (Throws err, w')
      | (Hangs, w') \<Rightarrow> (Hangs, w'))"

fun inOrder :: "unit io list \<Rightarrow> unit io" where
  "inOrder [] = returns ()"
| "inOrder (m # ms) = andThen m (\<lambda>u. inOrder ms)"

text \<open>An awaited driver call at a source line.\<close>

definition await :: "env \<Rightarrow> nat \<Rightarrow> call \<Rightarrow> unit io" where
  "await e line c w =
     (case throws e line c of
        None \<Rightarrow> (Returns (), logged [c] w)
      | Some err \<Rightarrow> (Throws err, logged [c] w))"

text \<open>A call whose promise is not awaited: a rejection does not reach the caller.\<close>

definition unawaited :: "call \<Rightarrow> unit io" where
  "unawaited c w = (Returns (), logged [c] w)"

definition delay :: "int \<Rightarrow> unit io" where
  "delay ms w = (Returns (), logged [Pause ms] w)"

text \<open>\<open>try { m } catch (err) { }\<close> with a handler that only logs.\<close>

definition swallow :: "unit io \<Rightarrow> unit io" where
  "swallow m w =
     (case m w of
        (Throws err, w') \<Rightarrow> (Returns (), w')
      | (r, w') \<Rightarrow> (r, w'))"

text \<open>
  \<open>Promise.all([p, q])\<close> of two promises already started, by their outcomes: it rejects
  with the rejection that comes first, and fulfils when both have.
\<close>

definition promiseAll :: "bool \<Rightarrow> unit outcome \<Rightarrow> unit outcome \<Rightarrow> unit outcome" where
  "promiseAll secondFirst p q =
     (case (p, q) of
        (Throws e1, Throws e2) \<Rightarrow> Throws (if secondFirst then e2 else e1)
      | (Throws e1, _) \<Rightarrow> Throws e1
      | (_, Throws e2) \<Rightarrow> Throws e2
      | (Returns u, Returns v) \<Rightarrow> Returns ()
      | _ \<Rightarrow> Hangs)"

text \<open>JavaScript truthiness of an optional string: defined and not empty.\<close>

definition truthy :: "string option \<Rightarrow> bool" where
  "truthy s = (case s of None \<Rightarrow> False | Some v \<Rightarrow> v \<noteq> [])"

text \<open>A default of a destructured parameter: it applies to \<open>undefined\<close> only.\<close>

definition orDefault :: "'a option \<Rightarrow> 'a option \<Rightarrow> 'a option" where
  "orDefault given dflt = (case given of None \<Rightarrow> dflt | Some v \<Rightarrow> Some v)"

text \<open>An optional string inside a template literal.\<close>

definition interpolate :: "string option \<Rightarrow> string" where
  "interpolate s = (case s of None \<Rightarrow> ''undefined'' | Some v \<Rightarrow> v)"

text \<open>
  \<open>Error.prototype.toString\<close>: the name alone when the message is empty, the message
  alone when the name is empty, else the name, a colon, a blank and the message.
\<close>

definition nameAndMessage :: "string \<Rightarrow> string \<Rightarrow> string" where
  "nameAndMessage name msg =
     (if name = [] then msg else if msg = [] then name else name @ '': '' @ msg)"

text \<open>
  \<open>err.toString()\<close>.  The name of a \<open>ChatGPTError\<close> is taken to be the inherited
  \<open>Error\<close> (its class is declared in \<open>types.ts\<close>).
\<close>

fun errorToString :: "error \<Rightarrow> string" where
  "errorToString (JsError msg) = nameAndMessage ''Error'' msg"
| "errorToString (NamedError name msg) = nameAndMessage name msg"
| "errorToString (TimeoutError msg) = nameAndMessage ''TimeoutError'' msg"
| "errorToString (ChatGPTError msg code) = nameAndMessage ''Error'' msg"

text \<open>\<open>try { m } catch (err) { throw f(err) }\<close>.\<close>

definition rethrowAs :: "(error \<Rightarrow> error) \<Rightarrow> 'a io \<Rightarrow> 'a io" where
  "rethrowAs f m w =
     (case m w of
        (Throws err, w') \<Rightarrow> (Throws (f err), w')
      | (r, w') \<Rightarrow> (r, w'))"

text \<open>
  \<open>Promise.all([p(), q()])\<close>: both calls are made, in this order, whatever becomes of the
  other one.
\<close>

definition allOf :: "bool \<Rightarrow> unit io \<Rightarrow> unit io \<Rightarrow> unit io" where
  "allOf secondFirst p q w =
     (case p w of (r1, w1) \<Rightarrow> (case q w1 of (r2, w2) \<Rightarrow> (promiseAll secondFirst r1 r2, w2)))"

text \<open>
  \<open>Promise.all([page.waitForNavigation(), await page.keyboard.press('Enter')])\<close>: the
  navigation wait is started, the key press is awaited while the array is still being
  built (a throw of it leaves at once), and then the navigation wait is awaited.
\<close>

definition pressEnterAndNavigate :: "env \<Rightarrow> nat \<Rightarrow> nat \<Rightarrow> unit io" where
  "pressEnterAndNavigate e navLine pressLine w =
     (case await e pressLine (Press ''Enter'') (logged [WaitForNavigation None] w) of
        (Returns u, w1) \<Rightarrow>
          (case throws e navLine (WaitForNavigation None) of
             None \<Rightarrow> (Returns (), w1)
           | Some err \<Rightarrow> (Throws err, w1))
      | (r, w1) \<Rightarrow> (r, w1))"

text \<open>A step that reads one of the module's flags.\<close>

definition ifFlag :: "(world \<Rightarrow> bool) \<Rightarrow> 'a io \<Rightarrow> 'a io \<Rightarrow> 'a io" where
  "ifFlag flag m1 m2 w = (if flag w then m1 w else m2 w)"

text \<open>The capacity check at a source line, on the page as \<open>capacityPage\<close> gives it.\<close>

definition capacityCheck :: "env \<Rightarrow> nat \<Rightarrow> capacity_opts \<Rightarrow> unit io" where
  "capacityCheck e line opts w =
     (case checkForChatGPTAtCapacity opts (capacityPage e line) of
        (Inl err, tr) \<Rightarrow> (Throws err, logged (map Probe tr) w)
      | (Inr u, tr) \<Rightarrow> (Returns (), logged (map Probe tr) w))"

text \<open>
  The promise of a guarded wait at a source line: the condition's call is made, the
  callbacks of \<open>guardEvents\<close> run, and the promise has the first settlement or is still
  pending; the \<open>await\<close> of a pending promise never returns.  Callbacks that cannot happen
  in this order describe no run and are read as a promise that stays pending.
\<close>

definition guardedWait :: "env \<Rightarrow> nat \<Rightarrow> call \<Rightarrow> unit io" where
  "guardedWait e line condition w =
     (case waitForConditionOrAtCapacity None (guardEvents e line) of
        None \<Rightarrow> (Hangs, logged [condition] w)
      | Some s \<Rightarrow>
          (case settlements s of
             [] \<Rightarrow> (Hangs, logged (condition # map Probe (pollerCalls s)) w)
           | Fulfilled # xs \<Rightarrow> (Returns (), logged (condition # map Probe (pollerCalls s)) w)
           | Rejected err # xs \<Rightarrow>
               (Throws err, logged (condition # map Probe (pollerCalls s)) w)))"

text \<open>\<open>(await browser.pages())[0] || (await browser.newPage())\<close> at a source line.\<close>

definition firstPageOrNew :: "env \<Rightarrow> nat \<Rightarrow> browser_id \<Rightarrow> page_id io" where
  "firstPageOrNew e line b =
     andThen (await e line (Pages b)) (\<lambda>u.
       case openPages e line of
         p # ps \<Rightarrow> returns p
       | [] \<Rightarrow> andThen (await e line (NewPage b)) (\<lambda>u. returns (createdPage e line)))"

section \<open>getBrowser\<close>

definition defaultChromeExecutablePath :: "env \<Rightarrow> string" where
  "defaultChromeExecutablePath e =
     (if truthy (PUPPETEER_EXECUTABLE_PATH e) then interpolate (PUPPETEER_EXECUTABLE_PATH e)
      else if platform e = ''win32'' then
        ''C:'' @ CHR 0x5C # ''Program Files'' @ CHR 0x5C # ''Google'' @ CHR 0x5C # ''Chrome'' @
        CHR 0x5C # ''Application'' @ CHR 0x5C # ''chrome.exe''
      else if platform e = ''darwin'' then
        ''/Applications/Google Chrome.app/Contents/MacOS/Google Chrome''
      else if chromeExists e then ''/usr/bin/google-chrome''
      else ''/usr/bin/google-chrome-stable'')"

text \<open>\<open>String.prototype.split\<close> with a separator of one character.\<close>

fun split :: "char \<Rightarrow> string \<Rightarrow> string list" where
  "split sep [] = [Nil]"
| "split sep (c # cs) =
     (if c = sep then [] # split sep cs
      else (case split sep cs of
              Nil \<Rightarrow> [c # Nil]
            | x # xs \<Rightarrow> (c # x) # xs))"

text \<open>
  \<open>proxyServer.includes('@') ? proxyServer.split('@')[1] : proxyServer\<close>, as it appears in
  the template literal (an \<open>undefined\<close> element would print as such).
\<close>

definition ipPort :: "string \<Rightarrow> string" where
  "ipPort proxyServer =
     (if CHR ''@'' \<in> set proxyServer then
        (case split (CHR ''@'') proxyServer of
           x # y # ys \<Rightarrow> y
         | _ \<Rightarrow> ''undefined'')
      else proxyServer)"

definition baseArgs :: "string list" where
  "baseArgs =
     [''--no-sandbox'', ''--disable-setuid-sandbox'', ''--disable-infobars'',
      ''--disable-dev-shm-usage'', ''--disable-blink-features=AutomationControlled'',
      ''--ignore-certificate-errors'', ''--no-first-run'', ''--no-service-autorun'',
      ''--password-store=basic'', ''--system-developer-mode'', ''--mute-audio'',
      ''--disable-default-apps'', ''--no-zygote'', ''--disable-accelerated-2d-canvas'',
      ''--disable-web-security'']"

text \<open>The array \<open>puppeteerArgs\<close> after its two conditional pushes.\<close>

definition puppeteerArgs :: "env \<Rightarrow> string option \<Rightarrow> string option \<Rightarrow> string list" where
  "puppeteerArgs e nopechaKey' proxyServer' =
     baseArgs @
     (if truthy nopechaKey'
      then [''--disable-extensions-except='' @ nopechaPath e, ''--load-extension='' @ nopechaPath e]
      else []) @
     (if truthy proxyServer'
      then [''--proxy-server='' @ ipPort (interpolate proxyServer')]
      else [])"

text \<open>Lines 335 to 363: the check of the proxy's address, when \<open>PROXY_VALIDATE_IP\<close> is set.\<close>

definition validateProxyIp :: "env \<Rightarrow> browser_id \<Rightarrow> bool \<Rightarrow> unit io" where
  "validateProxyIp e b minimize' =
     (if truthy (PROXY_VALIDATE_IP e) then
        andThen (firstPageOrNew e 336 b) (\<lambda>pg.
        andThen (if minimize' then await e 338 MinimizePage else returns ()) (\<lambda>u.
        andThen (rethrowAs (\<lambda>err. JsError (''Proxy IP validation failed: '' @ errorToString err))
                   (await e 345 (EvaluateFetch ''https://ifconfig.co''))) (\<lambda>u.
        if \<not> truthy (fetchedIp e) \<or> fetchedIp e \<noteq> PROXY_VALIDATE_IP e
        then raise (JsError (''Proxy IP mismatch: '' @ interpolate (fetchedIp e) @ '' !== '' @
                       interpolate (PROXY_VALIDATE_IP e)))
        else returns ())))
      else returns ())"

text \<open>
  The body of the inner \<open>try\<close> of \<open>initializeNopechaExtension\<close> (lines 393 to 438).  The
  31 presses of Backspace share one source line, so \<open>throws\<close> gives them one answer.
\<close>

definition setNopechaKey :: "env \<Rightarrow> browser_id \<Rightarrow> string option \<Rightarrow> unit io" where
  "setNopechaKey e b nopechaKey' =
     (case serviceWorkerHosts e of
        Inl err \<Rightarrow> (\<lambda>w. (Throws err, logged [Targets b] w))
      | Inr hosts \<Rightarrow>
          andThen (unawaited (Targets b)) (\<lambda>u.
          case filter (\<lambda>h. h \<noteq> []) hosts of
            [] \<Rightarrow> returns ()
          | extensionId # ids \<Rightarrow>
              andThen (inOrder
                [await e 414 (Goto (''chrome-extension://'' @ extensionId @ ''/popup.html'')),
                 await e 415 (WaitForSelector ''#edit_key .clickable'' None),
                 await e 416 (HandleClick ''#edit_key .clickable''),
                 await e 418 (WaitForSelector ''input.settings_text'' None),
                 await e 419 (HandleValue ''input.settings_text'')]) (\<lambda>u.
              if Some (settingsValue e) \<noteq> nopechaKey' then
                inOrder
                  (replicate 31 (await e 423 (HandlePress ''input.settings_text'' ''Backspace'')) @
                   [await e 426 (HandleType ''input.settings_text'' (interpolate nopechaKey')),
                    await e 427 (HandlePress ''input.settings_text'' ''Enter''),
                    delay 500,
                    await e 429 (HandleClick ''#edit_key .clickable''),
                    delay 2000])
              else returns ())))"

definition initializeNopechaExtension ::
  "env \<Rightarrow> browser_id \<Rightarrow> bool \<Rightarrow> string option \<Rightarrow> unit io" where
  "initializeNopechaExtension e b minimize' nopechaKey' =
     ifFlag hasNopechaExtension
       (andThen (firstPageOrNew e 384 b) (\<lambda>pg.
        andThen (if minimize' then await e 386 MinimizePage else returns ()) (\<lambda>u.
        andThen (await e 389 (Goto (''https://nopecha.com/setup#'' @ interpolate nopechaKey'))) (\<lambda>u.
        andThen (delay 1000) (\<lambda>u.
        swallow (setNopechaKey e b nopechaKey'))))))
       (returns ())"

text \<open>
  \<open>getBrowser(opts)\<close>, by the five options it destructures and by the \<open>args\<close> of the
  remaining \<open>launchOptions\<close>.  These are spread last into the argument of
  \<open>puppeteer.launch\<close>, so an \<open>args\<close> among them takes the place of \<open>puppeteerArgs\<close>; the
  other launch options do not bear on the calls recorded here, and \<open>executablePath\<close> is
  not one of them.  The registration of the plugin and the two flags come first, then the
  launch, the proxy check and the extension's set-up; only then is the browser returned.
\<close>

definition getBrowser ::
  "env \<Rightarrow> string option \<Rightarrow> string option \<Rightarrow> string option \<Rightarrow> string option \<Rightarrow> bool \<Rightarrow>
   string list option \<Rightarrow> browser_id io" where
  "getBrowser e captchaToken' nopechaKey' executablePath' proxyServer' minimize' launchArgs w =
     (let captchaToken1 = orDefault captchaToken' (CAPTCHA_TOKEN e);
          nopechaKey1 = orDefault nopechaKey' (NOPECHA_KEY e);
          executablePath1 =
            (case executablePath' of None \<Rightarrow> defaultChromeExecutablePath e | Some p \<Rightarrow> p);
          proxyServer1 = orDefault proxyServer' (PROXY_SERVER e);
          w1 = (if truthy captchaToken1 \<and> \<not> hasRecaptchaPlugin w
                then logged [UseRecaptchaPlugin (interpolate captchaToken1)]
                       (w\<lparr>hasRecaptchaPlugin := True\<rparr>)
                else w);
          w2 = (if truthy nopechaKey1 then w1\<lparr>hasNopechaExtension := True\<rparr> else w1)
      in andThen
           (await e 322
              (Launch (case launchArgs of
                         None \<Rightarrow> puppeteerArgs e nopechaKey1 proxyServer1
                       | Some args' \<Rightarrow> args')
                 executablePath1))
           (\<lambda>u.
         andThen (validateProxyIp e (launched e) minimize') (\<lambda>u.
         andThen (initializeNopechaExtension e (launched e) minimize' nopechaKey1) (\<lambda>u.
         returns (launched e)))) w2)"

section \<open>waitForRecaptcha\<close>

text \<open>
  \<open>String.prototype.trim\<close> on a string given by its UTF-16 code units: it strips white
  space and line terminators (tab, line feed, vertical tab, form feed, carriage return,
  space, no-break space, the Unicode space separators, line and paragraph separator and the
  byte order mark) from both ends.
\<close>

definition isWhitespace :: "nat \<Rightarrow> bool" where
  "isWhitespace u \<longleftrightarrow>
     u \<in> {0x0009, 0x000A, 0x000B, 0x000C, 0x000D, 0x0020, 0x00A0, 0x1680, 0x2028, 0x2029,
          0x202F, 0x205F, 0x3000, 0xFEFF} \<or>
     (0x2000 \<le> u \<and> u \<le> 0x200A)"

definition trim :: "nat list \<Rightarrow> nat list" where
  "trim s = rev (dropWhile isWhitespace (rev (dropWhile isWhitespace s)))"

text \<open>
  The \<open>do { ... } while (true)\<close> loop, one reading of the text area per round.  The loop
  has no bound of its own when \<open>timeoutMs\<close> is \<open>0\<close> or missing; readings that end before
  the loop does describe a run that never leaves it.
\<close>

fun recaptchaLoop ::
  "int \<Rightarrow> int option \<Rightarrow> int \<Rightarrow> ((error + nat list) \<times> int) list \<Rightarrow> unit io" where
  "recaptchaLoop poll tmo start [] w = (Hangs, w)"
| "recaptchaLoop poll tmo start ((reading, now) # rest) w =
     (case reading of
        Inl err \<Rightarrow> (Throws err, logged [HandleValue ''textarea#g-recaptcha-response''] w)
      | Inr v \<Rightarrow>
          if trim v \<noteq> [] then
            (Returns (), logged [HandleValue ''textarea#g-recaptcha-response''] w)
          else
            (case tmo of
               None \<Rightarrow>
                 recaptchaLoop poll tmo start rest
                   (logged [HandleValue ''textarea#g-recaptcha-response'', Pause poll] w)
             | Some t \<Rightarrow>
                 if t \<noteq> 0 \<and> now - start \<ge> t then
                   (Throws (TimeoutError ''Timed out waiting to solve Recaptcha''),
                    logged [HandleValue ''textarea#g-recaptcha-response''] w)
                 else
                   recaptchaLoop poll tmo start rest
                     (logged [HandleValue ''textarea#g-recaptcha-response'', Pause poll] w)))"

definition waitForRecaptcha :: "env \<Rightarrow> int option \<Rightarrow> int option \<Rightarrow> unit io" where
  "waitForRecaptcha e pollingIntervalMs' timeoutMs' w =
     (let ans = recaptchaAnswers e;
          w1 = logged (map Probe (solveSimpleCaptchas (simpleCaptchas ans))) w
      in if \<not> hasNopechaExtension w1 then (Returns (), w1)
         else
           (case responseArea ans of
              Inl err \<Rightarrow>
                (Throws err, logged [Probe (Query ''textarea#g-recaptcha-response'')] w1)
            | Inr found \<Rightarrow>
                if found then
                  recaptchaLoop (case pollingIntervalMs' of None \<Rightarrow> 100 | Some p \<Rightarrow> p)
                    timeoutMs' (startTime ans) (readings ans)
                    (logged [Probe (Query ''textarea#g-recaptcha-response'')] w1)
                else (Returns (), logged [Probe (Query ''textarea#g-recaptcha-response'')] w1)))"


section \<open>getOpenAIAuth\<close>

text \<open>
  The parameters of \<open>getOpenAIAuth\<close>.  The field \<open>authTimeoutMs\<close> is the parameter
  \<open>timeoutMs\<close> (the name is taken by the guard's option).
\<close>

record auth_args =
  email :: "string option"
  password :: "string option"
  browser :: "browser_id option"
  page :: "page_id option"
  authTimeoutMs :: "int option"
  isGoogleLogin :: bool
  isMicrosoftLogin :: bool
  captchaToken :: "string option"
  nopechaKey :: "string option"
  executablePath :: "string option"
  proxyServer :: "string option"
  minimize :: bool

record OpenAIAuth =
  userAgent :: string
  clearanceToken :: "string option"
  sessionToken :: "string option"
  cookies :: "string \<rightharpoonup> cookie"

text \<open>The default of the parameter: \<open>timeoutMs = 2 * 60 * 1000\<close>.\<close>

definition authTimeout :: "auth_args \<Rightarrow> int" where
  "authTimeout args = (case authTimeoutMs args of None \<Rightarrow> 2 * 60 * 1000 | Some t \<Rightarrow> t)"

text \<open>The options object \<open>{ timeoutMs }\<close>.\<close>

definition onlyTimeout :: "int \<Rightarrow> capacity_opts" where
  "onlyTimeout t = \<lparr>timeoutMs = Some t, pollingIntervalMs = None, retries = None\<rparr>"

text \<open>\<open>pageCookies.reduce((map, cookie) => ({ ...map, [cookie.name]: cookie }), {})\<close>.\<close>

definition cookiesByName :: "cookie list \<Rightarrow> (string \<rightharpoonup> cookie)" where
  "cookiesByName cs = foldl (\<lambda>m c. m(cookieName c \<mapsto> c)) Map.empty cs"

definition authInfo :: "string \<Rightarrow> cookie list \<Rightarrow> OpenAIAuth" where
  "authInfo ua cs =
     \<lparr>userAgent = ua,
      clearanceToken = map_option cookieValue (cookiesByName cs ''cf_clearance''),
      sessionToken = map_option cookieValue (cookiesByName cs ''__Secure-next-auth.session-token''),
      cookies = cookiesByName cs\<rparr>"

text \<open>Lines 107 to 115.\<close>

definition solveFoundRecaptchas :: "env \<Rightarrow> unit io" where
  "solveFoundRecaptchas e =
     ifFlag hasRecaptchaPlugin
       (andThen (await e 108 FindRecaptchas) (\<lambda>u.
          if recaptchasFiltered e \<noteq> 0 then await e 112 SolveRecaptchas else returns ()))
       (returns ())"

text \<open>
  The three ways to fill in the login form.  Each returns \<open>submitP\<close>, the call that
  submits the password.
\<close>

definition googleLogin :: "env \<Rightarrow> string \<Rightarrow> string \<Rightarrow> call io" where
  \<open>googleLogin e email' password' =
     andThen (inOrder
       [await e 141 (Click ''button[data-provider="google"]''),
        await e 142 (WaitForSelector ''input[type="email"]'' None),
        await e 143 (TypeText ''input[type="email"]'' email'),
        pressEnterAndNavigate e 145 146,
        await e 148 (WaitForVisible ''input[type="password"]''),
        await e 149 (TypeText ''input[type="password"]'' password')]) (\<lambda>u.
     returns (Press ''Enter''))\<close>

definition microsoftLogin :: "env \<Rightarrow> string \<Rightarrow> string \<Rightarrow> call io" where
  \<open>microsoftLogin e email' password' =
     andThen (inOrder
       [await e 152 (Click ''button[data-provider="windowslive"]''),
        await e 153 (WaitForSelector ''input[type="email"]'' None),
        await e 154 (TypeText ''input[type="email"]'' email'),
        pressEnterAndNavigate e 156 157,
        delay 1500,
        await e 160 (WaitForVisible ''input[type="password"]''),
        await e 161 (TypeText ''input[type="password"]'' password'),
        pressEnterAndNavigate e 164 165,
        delay 1000]) (\<lambda>u.
     returns (Press ''Enter''))\<close>

definition passwordLogin :: "env \<Rightarrow> int \<Rightarrow> string \<Rightarrow> string \<Rightarrow> call io" where
  \<open>passwordLogin e timeoutMs' email' password' =
     andThen (inOrder
       [await e 169 (WaitForSelector ''#username'' None),
        await e 170 (TypeText ''#username'' email'),
        delay 100,
        ifFlag hasNopechaExtension
          (waitForRecaptcha e None (Some timeoutMs'))
          (ifFlag hasRecaptchaPlugin (await e 178 SolveRecaptchas) (returns ())),
        delay 1200,
        await e 188 (WaitForSelector ''button[type="submit"]'' (Some timeoutMs')),
        unawaited (FrameFocus ''button[type="submit"]''),
        await e 192 (HandleFocus ''button[type="submit"]''),
        await e 193 (HandleClick ''button[type="submit"]''),
        await e 194 (WaitForSelector ''#password'' (Some timeoutMs')),
        await e 195 (TypeText ''#password'' password')]) (\<lambda>u.
     returns (Click ''button[type="submit"]''))\<close>

text \<open>Lines 121 to 207: the branch taken when \<open>email && password\<close>.\<close>

definition login :: "env \<Rightarrow> auth_args \<Rightarrow> unit io" where
  "login e args =
     (let timeoutMs' = authTimeout args;
          email' = interpolate (email args);
          password' = interpolate (password args)
      in
      andThen (guardedWait e 121 (WaitForSelector ''#__next .btn-primary'' (Some timeoutMs'))) (\<lambda>u.
      andThen (delay 500) (\<lambda>u.
      andThen (allOf (secondRejectsFirst e 127)
                 (await e 128 (WaitForNavigation (Some timeoutMs')))
                 (await e 133 (Click ''#__next .btn-primary''))) (\<lambda>u.
      andThen (capacityCheck e 136 (onlyTimeout timeoutMs')) (\<lambda>u.
      andThen (if isGoogleLogin args then googleLogin e email' password'
               else if isMicrosoftLogin args then microsoftLogin e email' password'
               else passwordLogin e timeoutMs' email' password') (\<lambda>submitP.
      allOf (secondRejectsFirst e 199)
        (guardedWait e 200 (WaitForNavigation (Some timeoutMs')))
        (await e 206 submitP)))))))"

text \<open>Lines 100 to 226: the \<open>try\<close> block once \<open>browser\<close>, \<open>userAgent\<close> and \<open>page\<close> are there.\<close>

definition authBody :: "env \<Rightarrow> auth_args \<Rightarrow> OpenAIAuth io" where
  "authBody e args =
     andThen (await e 100 (Goto ''https://chat.openai.com/auth/login'')) (\<lambda>u.
     andThen (capacityCheck e 105 (onlyTimeout (authTimeout args))) (\<lambda>u.
     andThen (solveFoundRecaptchas e) (\<lambda>u.
     andThen (if truthy (email args) \<and> truthy (password args) then login e args
              else inOrder [delay 2000, capacityCheck e 210 (onlyTimeout (authTimeout args))])
       (\<lambda>u.
     andThen (await e 213 Cookies) (\<lambda>u.
     returns (authInfo (browserUserAgent e) (pageCookies e)))))))"

text \<open>
  Lines 81 to 88: the local \<open>browser\<close>.  \<open>getBrowser\<close> is called with four options and
  no launch options.
\<close>

definition acquireBrowser :: "env \<Rightarrow> auth_args \<Rightarrow> browser_id io" where
  "acquireBrowser e args =
     (case browser args of
        Some b \<Rightarrow> returns b
      | None \<Rightarrow>
          getBrowser e (orDefault (captchaToken args) (CAPTCHA_TOKEN e))
            (orDefault (nopechaKey args) (NOPECHA_KEY e)) (executablePath args)
            (orDefault (proxyServer args) (PROXY_SERVER e)) False None)"

text \<open>
  Lines 91 to 98: the local \<open>page\<close>, returned with the outcome because the \<open>finally\<close>
  block reads it whatever happened after the assignment.
\<close>

definition acquirePage ::
  "env \<Rightarrow> auth_args \<Rightarrow> browser_id \<Rightarrow> world \<Rightarrow> page_id option \<times> unit outcome \<times> world" where
  "acquirePage e args b w =
     (case page args of
        Some p \<Rightarrow> (Some p, Returns (), w)
      | None \<Rightarrow>
          (case firstPageOrNew e 92 b w of
             (Returns p, w1) \<Rightarrow>
               (case inOrder
                       [await e 93 (SetDefaultTimeout (authTimeout args)),
                        if minimize args then await e 96 MinimizePage else returns ()] w1 of
                  (r, w2) \<Rightarrow> (Some p, r, w2))
           | (Throws err, w1) \<Rightarrow> (None, Throws err, w1)
           | (Hangs, w1) \<Rightarrow> (None, Hangs, w1)))"

text \<open>
  The \<open>try\<close> block: the values of the locals \<open>browser\<close> and \<open>page\<close> when it is left, its
  outcome and the world.
\<close>

definition tryBlock ::
  "env \<Rightarrow> auth_args \<Rightarrow> world \<Rightarrow>
   browser_id option \<times> page_id option \<times> OpenAIAuth outcome \<times> world" where
  "tryBlock e args w =
     (case acquireBrowser e args w of
        (Returns b, w1) \<Rightarrow>
          (case await e 90 (UserAgent b) w1 of
             (Returns u, w2) \<Rightarrow>
               (case acquirePage e args b w2 of
                  (pg, Returns u', w3) \<Rightarrow>
                    (case authBody e args w3 of (r, w4) \<Rightarrow> (Some b, pg, r, w4))
                | (pg, Throws err, w3) \<Rightarrow> (Some b, pg, Throws err, w3)
                | (pg, Hangs, w3) \<Rightarrow> (Some b, pg, Hangs, w3))
           | (Throws err, w2) \<Rightarrow> (Some b, page args, Throws err, w2)
           | (Hangs, w2) \<Rightarrow> (Some b, page args, Hangs, w2))
      | (Throws err, w1) \<Rightarrow> (browser args, page args, Throws err, w1)
      | (Hangs, w1) \<Rightarrow> (browser args, page args, Hangs, w1))"

text \<open>The \<open>finally\<close> block, lines 230 to 236.\<close>

definition finallyBlock ::
  "env \<Rightarrow> auth_args \<Rightarrow> browser_id option \<Rightarrow> page_id option \<Rightarrow> unit io" where
  "finallyBlock e args browser' page' =
     (case browser args of
        Some origBrowser \<Rightarrow>
          (case page' of
             Some p \<Rightarrow> if page' \<noteq> page args then await e 232 (ClosePage p) else returns ()
           | None \<Rightarrow> returns ())
      | None \<Rightarrow>
          (case browser' of
             Some b \<Rightarrow> await e 235 (CloseBrowser b)
           | None \<Rightarrow> returns ()))"

text \<open>
  \<open>try { ... } catch (err) { throw err } finally { ... }\<close>: the \<open>finally\<close> block runs when
  the \<open>try\<close> block returns or throws, and a throw of its own replaces the outcome.
\<close>

definition getOpenAIAuth :: "env \<Rightarrow> auth_args \<Rightarrow> OpenAIAuth io" where
  "getOpenAIAuth e args w =
     (case tryBlock e args w of
        (browser', page', Hangs, w1) \<Rightarrow> (Hangs, w1)
      | (browser', page', r, w1) \<Rightarrow>
          (case finallyBlock e args browser' page' w1 of
             (Returns u, w2) \<Rightarrow> (r, w2)
           | (Throws err, w2) \<Rightarrow> (Throws err, w2)
           | (Hangs, w2) \<Rightarrow> (Hangs, w2)))"


section \<open>Vocabulary for the properties of getOpenAIAuth\<close>

text \<open>A step emits \<open>P\<close> when it only adds calls to the log and each added call satisfies \<open>P\<close>.\<close>

definition emits :: "(call \<Rightarrow> bool) \<Rightarrow> 'a io \<Rightarrow> bool" where
  "emits P m \<longleftrightarrow> (\<forall>w. \<exists>cs. calls (snd (m w)) = calls w @ cs \<and> list_all P cs)"

text \<open>The calls a run of \<open>getOpenAIAuth\<close> adds to the log.\<close>

definition callsOf :: "env \<Rightarrow> auth_args \<Rightarrow> world \<Rightarrow> call list" where
  "callsOf e args w = drop (length (calls w)) (calls (snd (getOpenAIAuth e args w)))"

text \<open>A reload of the guard carries the given timeout.\<close>

fun reloadsWith :: "int \<Rightarrow> action \<Rightarrow> bool" where
  "reloadsWith t (Reload t') = (t' = t)"
| "reloadsWith t a = True"

fun isClose :: "call \<Rightarrow> bool" where
  "isClose (ClosePage p) = True"
| "isClose (CloseBrowser b) = True"
| "isClose c = False"

text \<open>The calls only the login branch makes.\<close>

fun isLoginCall :: "call \<Rightarrow> bool" where
  "isLoginCall (Click sel) = True"
| "isLoginCall (TypeText sel text) = True"
| "isLoginCall (Press key) = True"
| "isLoginCall (WaitForNavigation t) = True"
| "isLoginCall (WaitForVisible sel) = True"
| "isLoginCall (FrameFocus sel) = True"
| "isLoginCall (HandleFocus sel) = True"
| "isLoginCall c = False"


text \<open>
  The calls the \<open>try\<close> block of \<open>getOpenAIAuth\<close> can make, by whether the login branch is
  taken, by whether the function takes the page itself, and by the value of \<open>timeoutMs\<close>.
\<close>

fun tryCall :: "bool \<Rightarrow> bool \<Rightarrow> int \<Rightarrow> call \<Rightarrow> bool" where
  "tryCall creds own tmo (Probe a) = (reloadsWith tmo a \<or> creds \<and> reloadsWith 120000 a)"
| "tryCall creds own tmo (SetDefaultTimeout t) = (own \<and> t = tmo)"
| "tryCall creds own tmo (WaitForSelector sel t) = (t = None \<or> creds \<and> t = Some tmo)"
| "tryCall creds own tmo (WaitForNavigation t) = (creds \<and> (t = None \<or> t = Some tmo))"
| "tryCall creds own tmo (WaitForVisible sel) = creds"
| "tryCall creds own tmo (Click sel) = creds"
| "tryCall creds own tmo (TypeText sel text) = creds"
| "tryCall creds own tmo (Press key) = creds"
| "tryCall creds own tmo (FrameFocus sel) = creds"
| "tryCall creds own tmo (HandleFocus sel) = creds"
| "tryCall creds own tmo (ClosePage p) = False"
| "tryCall creds own tmo (CloseBrowser b) = False"
| "tryCall creds own tmo c = True"



text \<open>The substring after the first \<open>@\<close>, in the words of the specification.\<close>

definition substringAfterFirstAt :: "string \<Rightarrow> string" where
  "substringAfterFirstAt s = tl (dropWhile (\<lambda>c. c \<noteq> CHR ''@'') s)"

text \<open>Concrete inputs: a run in which nothing throws and no banner shows.\<close>

definition clearanceCookie :: cookie where
  "clearanceCookie =
     \<lparr>cookieName = ''cf_clearance'', cookieValue = ''cf-token'', cookieDomain = ''.openai.com'',
      cookiePath = ''/''\<rparr>"

definition sessionCookie :: cookie where
  "sessionCookie =
     \<lparr>cookieName = ''__Secure-next-auth.session-token'', cookieValue = ''session-token'',
      cookieDomain = ''chat.openai.com'', cookiePath = ''/''\<rparr>"

definition quietEnv :: env where
  "quietEnv =
     \<lparr>CAPTCHA_TOKEN = None, NOPECHA_KEY = None, PROXY_SERVER = None, PROXY_VALIDATE_IP = None,
      PUPPETEER_EXECUTABLE_PATH = None, platform = ''linux'', chromeExists = True,
      nopechaPath = ''/app/third-party/nopecha-chrome-extension'',
      throws = (\<lambda>line c. None), launched = 1, openPages = (\<lambda>line. [7]),
      createdPage = (\<lambda>line. 8), browserUserAgent = ''Mozilla/5.0'', fetchedIp = None,
      serviceWorkerHosts = Inr [], settingsValue = [], recaptchasFiltered = 0,
      capacityPage = (\<lambda>line. bannerFor 0), guardEvents = (\<lambda>line. [ConditionFulfils]),
      secondRejectsFirst = (\<lambda>line. False),
      recaptchaAnswers =
        \<lparr>simpleCaptchas = noCaptcha, responseArea = Inr False, startTime = 0, readings = []\<rparr>,
      pageCookies = [clearanceCookie]\<rparr>"

text \<open>The same, on a page that already holds the cookie of a logged-in session.\<close>

definition loggedInEnv :: env where
  "loggedInEnv = quietEnv\<lparr>pageCookies := [clearanceCookie, sessionCookie]\<rparr>"

definition noArgs :: auth_args where
  "noArgs =
     \<lparr>email = None, password = None, browser = None, page = None, authTimeoutMs = None,
      isGoogleLogin = False, isMicrosoftLogin = False, captchaToken = None, nopechaKey = None,
      executablePath = None, proxyServer = None, minimize = False\<rparr>"

definition freshWorld :: world where
  "freshWorld = \<lparr>hasRecaptchaPlugin = False, hasNopechaExtension = False, calls = []\<rparr>"


text \<open>The proxy check is on and the address seen through the proxy is another one.\<close>

definition proxyMismatchEnv :: env where
  "proxyMismatchEnv =
     quietEnv\<lparr>PROXY_VALIDATE_IP := Some ''203.0.113.7'', fetchedIp := Some ''198.51.100.9''\<rparr>"

text \<open>The caller hands in its own browser and page.\<close>

definition ownBrowserAndPage :: auth_args where
  "ownBrowserAndPage = noArgs\<lparr>browser := Some 3, page := Some 4\<rparr>"




section \<open>Properties of the capacity guard\<close>

subsection \<open>The five ways through one cycle\<close>

declare capacityLoop.simps [simp del]

lemma loop_query_throws:
  "xpath (pg i) = Inl err \<Longrightarrow>
   capacityLoop tmo poll rts pg i c n = (c, n + 1, cycleCalls pg i)"
  by (subst capacityLoop.simps) (simp add: cycleCalls_def)

lemma loop_no_banner:
  "\<not> bannerPresent (pg i) \<Longrightarrow> xpath (pg i) = Inr len \<Longrightarrow>
   capacityLoop tmo poll rts pg i c n = (False, n, cycleCalls pg i)"
  by (subst capacityLoop.simps) (simp add: cycleCalls_def bannerPresent_def)

lemma loop_budget_spent:
  "bannerPresent (pg i) \<Longrightarrow> rts \<le> n + 1 \<Longrightarrow>
   capacityLoop tmo poll rts pg i c n = (True, n + 1, cycleCalls pg i)"
  by (subst capacityLoop.simps)
     (simp add: cycleCalls_def bannerPresent_def split: sum.splits)

lemma loop_reload_throws:
  "bannerPresent (pg i) \<Longrightarrow> \<not> rts \<le> n + 1 \<Longrightarrow> reload (pg i) = Some err \<Longrightarrow>
   capacityLoop tmo poll rts pg i c n = (True, n + 2, cycleCalls pg i @ [Reload tmo])"
  by (subst capacityLoop.simps)
     (simp add: cycleCalls_def bannerPresent_def split: sum.splits)

lemma loop_again:
  "bannerPresent (pg i) \<Longrightarrow> \<not> rts \<le> n + 1 \<Longrightarrow> reload (pg i) = None \<Longrightarrow>
   capacityLoop tmo poll rts pg i c n =
     (case capacityLoop tmo poll rts pg (Suc i) True (n + 1) of
        (c', n', tr) \<Rightarrow> (c', n', cycleCalls pg i @ [Reload tmo, Delay poll] @ tr))"
  by (subst capacityLoop.simps)
     (simp add: cycleCalls_def bannerPresent_def split: sum.splits)

lemma loop_cases:
  obtains (query_throws) err where "xpath (pg i) = Inl err"
  | (no_banner) len where "\<not> bannerPresent (pg i)" "xpath (pg i) = Inr len"
  | (budget_spent) "bannerPresent (pg i)" "rts \<le> n + 1"
  | (reload_throws) err where
      "bannerPresent (pg i)" "\<not> rts \<le> n + 1" "reload (pg i) = Some err"
  | (again) "bannerPresent (pg i)" "\<not> rts \<le> n + 1" "reload (pg i) = None"
  by (cases "xpath (pg i)"; cases "reload (pg i)"; cases "rts \<le> n + 1";
      cases "bannerPresent (pg i)") (auto simp: bannerPresent_def)

lemmas loop_exits =
  loop_query_throws loop_no_banner loop_budget_spent loop_reload_throws

subsection \<open>Counting the banner queries\<close>

lemma detections_append [simp]: "detections (xs @ ys) = detections xs + detections ys"
  by (simp add: detections_def)

lemma detections_simps [simp]:
  "detections [] = 0"
  "detections (XPath capacityXPath # tr) = Suc (detections tr)"
  "detections (Reload t # tr) = detections tr"
  "detections (Delay t # tr) = detections tr"
  "detections (Query q # tr) = detections tr"
  "detections (ClickHandle q # tr) = detections tr"
  by (simp_all add: detections_def)

lemma detections_solveSimpleCaptchas [simp]: "detections (solveSimpleCaptchas p) = 0"
  by (simp add: solveSimpleCaptchas_def clickCaptcha_def split: sum.splits option.splits)

lemma detections_cycleCalls [simp]: "detections (cycleCalls pg k) = 1"
  by (simp add: cycleCalls_def)

subsection \<open>The loop on a banner that clears, and on one that stays\<close>

lemma loop_clears:
  "n + int R < rts \<Longrightarrow>
   (\<forall>k<R. bannerPresent (pg (i + k)) \<and> reload (pg (i + k)) = None) \<Longrightarrow>
   xpath (pg (i + R)) = Inr 0 \<Longrightarrow>
   capacityLoop tmo poll rts pg i c n =
     (False, n + int R,
      concat (map (\<lambda>k. cycleCalls pg k @ [Reload tmo, Delay poll]) [i..<i + R]) @
      cycleCalls pg (i + R))"
proof (induction R arbitrary: i c n)
  case 0
  then show ?case by (simp add: loop_no_banner bannerPresent_def)
next
  case (Suc R)
  from Suc.prems(2) have b: "bannerPresent (pg i)" and r: "reload (pg i) = None"
    by (metis add.right_neutral zero_less_Suc)+
  have rest: "capacityLoop tmo poll rts pg (Suc i) True (n + 1) =
     (False, n + 1 + int R,
      concat (map (\<lambda>k. cycleCalls pg k @ [Reload tmo, Delay poll]) [Suc i..<Suc i + R]) @
      cycleCalls pg (Suc i + R))"
    using Suc.prems by (intro Suc.IH) auto
  have lt: "\<not> rts \<le> n + 1" using Suc.prems(1) by simp
  show ?case
    using b lt r by (simp add: loop_again rest upt_conv_Cons del: upt_Suc)
qed

lemma loop_exhaust:
  "(\<forall>k < max 1 (nat (rts - n)). bannerPresent (pg (i + k))) \<Longrightarrow>
   fst (capacityLoop tmo poll rts pg i c n)"
proof (induction tmo poll rts pg i c n rule: capacityLoop.induct)
  case (1 tmo poll rts pg i c n)
  from "1.prems" have b: "bannerPresent (pg i)"
    by (metis add.right_neutral less_max_iff_disj zero_less_one)
  then obtain len where len: "xpath (pg i) = Inr len" "len \<noteq> 0"
    by (auto simp: bannerPresent_def split: sum.splits)
  show ?case
  proof (cases rule: loop_cases [where pg = pg and i = i and rts = rts and n = n])
    case (again)
    have "\<forall>k < max 1 (nat (rts - (n + 1))). bannerPresent (pg (i + 1 + k))"
    proof (intro allI impI)
      fix k assume "k < max 1 (nat (rts - (n + 1)))"
      with again(2) have "Suc k < max 1 (nat (rts - n))" by auto
      with "1.prems" have "bannerPresent (pg (i + Suc k))" by blast
      then show "bannerPresent (pg (i + 1 + k))" by simp
    qed
    with "1.IH" [OF _ len(1) len(2) again(2) again(3)]
    have "fst (capacityLoop tmo poll rts pg (Suc i) True (n + 1))" by simp
    with again show ?thesis by (auto simp add: loop_again split: prod.splits)
  qed (use b in \<open>simp_all add: loop_exits bannerPresent_def\<close>)
qed



lemma check_outcome:
  "fst (checkForChatGPTAtCapacity opts pg) =
     (if fst (capacityLoop (capacityTimeoutMs opts) (capacityPollingIntervalMs opts)
                (capacityRetries opts) pg 0 False 0)
      then Inl atCapacityError else Inr ())"
  by (simp add: checkForChatGPTAtCapacity_def split: prod.splits)

lemma check_calls:
  "snd (checkForChatGPTAtCapacity opts pg) =
     snd (snd (capacityLoop (capacityTimeoutMs opts) (capacityPollingIntervalMs opts)
                 (capacityRetries opts) pg 0 False 0))"
  by (simp add: checkForChatGPTAtCapacity_def split: prod.splits)

lemma bannerFor_simps [simp]:
  "bannerPresent (bannerFor R k) \<longleftrightarrow> k < R"
  "reload (bannerFor R k) = None"
  "xpath (bannerFor R k) = Inr (if k < R then 1 else 0)"
  "cycleCalls (bannerFor R) k =
     [Query ''text=Verify you are human'', Query ''.hcaptcha-box'', XPath capacityXPath]"
  by (simp_all add: bannerFor_def bannerPresent_def cycleCalls_def solveSimpleCaptchas_def
        noCaptcha_def)

lemma bannerAlways_simps [simp]:
  "bannerPresent (bannerAlways k)"
  "reload (bannerAlways k) = None"
  "cycleCalls bannerAlways k =
     [Query ''text=Verify you are human'', Query ''.hcaptcha-box'', XPath capacityXPath]"
  by (simp_all add: bannerAlways_def bannerPresent_def cycleCalls_def solveSimpleCaptchas_def
        noCaptcha_def)

lemma noOpts_simps [simp]:
  "capacityTimeoutMs noOpts = 120000"
  "capacityPollingIntervalMs noOpts = 3000"
  "capacityRetries noOpts = 10"
  by (simp_all add: noOpts_def capacityTimeoutMs_def capacityPollingIntervalMs_def
        capacityRetries_def)

text \<open>
  C1.  If the banner is present in exactly the first \<open>R\<close> polling cycles, with \<open>R\<close> below
  the retry budget, and the reloads succeed, then the guard returns normally, and its
  driver calls are \<open>R\<close> rounds of (cycle, reload with the timeout, wait for the polling
  interval) followed by the cycle that finds the banner gone.  If the banner is present
  throughout the retry budget, the guard throws the \<open>ChatGPTError\<close>
  \<open>ChatGPT is at capacity\<close> whose \<open>statusCode\<close> is 503.
\<close>

theorem capacity_guard_clears_or_throws_503:
  "(int R < capacityRetries opts \<and>
    (\<forall>k<R. bannerPresent (pg k) \<and> reload (pg k) = None) \<and> xpath (pg R) = Inr 0 \<longrightarrow>
      checkForChatGPTAtCapacity opts pg =
        (Inr (),
         concat (map (\<lambda>k. cycleCalls pg k @
                   [Reload (capacityTimeoutMs opts), Delay (capacityPollingIntervalMs opts)])
                 [0..<R]) @
         cycleCalls pg R)) \<and>
   ((\<forall>k < max 1 (nat (capacityRetries opts)). bannerPresent (pg k)) \<longrightarrow>
      (\<exists>err. fst (checkForChatGPTAtCapacity opts pg) = Inl err \<and>
         err = ChatGPTError ''ChatGPT is at capacity'' (Some 503) \<and>
         statusCode err = Some 503))"
proof (intro conjI impI)
  assume a: "int R < capacityRetries opts \<and>
    (\<forall>k<R. bannerPresent (pg k) \<and> reload (pg k) = None) \<and> xpath (pg R) = Inr 0"
  have "capacityLoop (capacityTimeoutMs opts) (capacityPollingIntervalMs opts)
          (capacityRetries opts) pg 0 False 0 =
        (False, 0 + int R,
         concat (map (\<lambda>k. cycleCalls pg k @
                   [Reload (capacityTimeoutMs opts), Delay (capacityPollingIntervalMs opts)])
                 [0..<0 + R]) @
         cycleCalls pg (0 + R))"
    using a by (intro loop_clears) simp_all
  then show "checkForChatGPTAtCapacity opts pg =
        (Inr (),
         concat (map (\<lambda>k. cycleCalls pg k @
                   [Reload (capacityTimeoutMs opts), Delay (capacityPollingIntervalMs opts)])
                 [0..<R]) @
         cycleCalls pg R)"
    by (simp add: checkForChatGPTAtCapacity_def)
next
  assume "\<forall>k < max 1 (nat (capacityRetries opts)). bannerPresent (pg k)"
  then have "fst (capacityLoop (capacityTimeoutMs opts) (capacityPollingIntervalMs opts)
          (capacityRetries opts) pg 0 False 0)"
    by (intro loop_exhaust) simp
  then show "\<exists>err. fst (checkForChatGPTAtCapacity opts pg) = Inl err \<and>
         err = ChatGPTError ''ChatGPT is at capacity'' (Some 503) \<and>
         statusCode err = Some 503"
    by (simp add: check_outcome atCapacityError_def)
qed

theorem capacity_guard_clears_or_throws_503_witness:
  "int 2 < capacityRetries noOpts \<and>
   bannerPresent (bannerFor 2 0) \<and> reload (bannerFor 2 0) = None \<and>
   bannerPresent (bannerFor 2 1) \<and> reload (bannerFor 2 1) = None \<and>
   xpath (bannerFor 2 2) = Inr 0 \<and>
   checkForChatGPTAtCapacity noOpts (bannerFor 2) =
     (Inr (),
      [Query ''text=Verify you are human'', Query ''.hcaptcha-box'', XPath capacityXPath,
       Reload 120000, Delay 3000,
       Query ''text=Verify you are human'', Query ''.hcaptcha-box'', XPath capacityXPath,
       Reload 120000, Delay 3000,
       Query ''text=Verify you are human'', Query ''.hcaptcha-box'', XPath capacityXPath]) \<and>
   max 1 (nat (capacityRetries noOpts)) = 10 \<and> bannerPresent (bannerAlways 9) \<and>
   fst (checkForChatGPTAtCapacity noOpts bannerAlways) =
     Inl (ChatGPTError ''ChatGPT is at capacity'' (Some 503))"
  using capacity_guard_clears_or_throws_503 [of 2 noOpts "bannerFor 2"]
    capacity_guard_clears_or_throws_503 [of 0 noOpts bannerAlways]
  by (simp add: upt_conv_Cons del: upt_Suc)




section \<open>Properties of the guarded wait\<close>

lemma waitInv_start: "waitInv (waitStart poll)"
  by (simp add: waitInv_def waitStart_def)

lemma waitInv_step: "waitInv s \<Longrightarrow> waitStep poll s e = Some s' \<Longrightarrow> waitInv s'"
  by (cases e) (auto simp: waitInv_def split: if_splits prod.splits sum.splits)

lemma waitInv_run: "waitInv s \<Longrightarrow> waitRun poll s es = Some s' \<Longrightarrow> waitInv s'"
  by (induction es arbitrary: s) (auto split: option.splits dest: waitInv_step)

lemma waitInv_reachable: "waitForConditionOrAtCapacity p es = Some s \<Longrightarrow> waitInv s"
  unfolding waitForConditionOrAtCapacity_def by (rule waitInv_run [OF waitInv_start])

text \<open>Once \<open>resolved\<close> is set, no callback settles the promise or arms a timer.\<close>

lemma disarmed_step:
  "resolved s \<Longrightarrow> waitStep poll s e = Some s' \<Longrightarrow>
   resolved s' \<and> settlements s' = settlements s \<and> timers s' = timers s"
  by (cases e) (auto split: if_splits prod.splits sum.splits)

lemma disarmed_run:
  "resolved s \<Longrightarrow> waitRun poll s es = Some s' \<Longrightarrow>
   resolved s' \<and> settlements s' = settlements s \<and> timers s' = timers s"
proof (induction es arbitrary: s)
  case Nil
  then show ?case by simp
next
  case (Cons e es)
  then obtain s1 where s1: "waitStep poll s e = Some s1" "waitRun poll s1 es = Some s'"
    by (auto split: option.splits)
  from disarmed_step [OF Cons.prems(1) s1(1)] Cons.IH [OF _ s1(2)] show ?case by simp
qed

text \<open>The callback that sets \<open>resolved\<close> settles the promise with what it asks.\<close>

lemma first_settles:
  "waitInv s \<Longrightarrow> \<not> resolved s \<Longrightarrow> waitStep poll s e = Some s' \<Longrightarrow> resolved s' \<Longrightarrow>
   \<exists>x. asks e = Some x \<and> settlements s' = [x]"
  by (cases e) (auto simp: waitInv_def split: if_splits prod.splits sum.splits)

text \<open>Only the \<open>then\<close> handler of the condition calls \<open>resolve\<close>.\<close>

lemma fulfilled_step:
  "waitStep poll s e = Some s' \<Longrightarrow> Fulfilled \<in> set (settlements s') \<Longrightarrow>
   Fulfilled \<in> set (settlements s) \<or> e = ConditionFulfils"
  by (cases e) (auto split: if_splits prod.splits sum.splits)

lemma fulfilled_run:
  "waitRun poll s es = Some s' \<Longrightarrow> Fulfilled \<in> set (settlements s') \<Longrightarrow>
   Fulfilled \<in> set (settlements s) \<or> ConditionFulfils \<in> set es"
proof (induction es arbitrary: s)
  case Nil
  then show ?case by simp
next
  case (Cons e es)
  then obtain s1 where s1: "waitStep poll s e = Some s1" "waitRun poll s1 es = Some s'"
    by (auto split: option.splits)
  from Cons.IH [OF s1(2) Cons.prems(2)] fulfilled_step [OF s1(1)] show ?case by auto
qed

lemma check_bannerFor_0:
  "checkForChatGPTAtCapacity noOpts (bannerFor 0) =
     (Inr (), [Query ''text=Verify you are human'', Query ''.hcaptcha-box'', XPath capacityXPath])"
  by (simp add: checkForChatGPTAtCapacity_def loop_no_banner)

lemma check_bannerThenReloadThrows:
  "checkForChatGPTAtCapacity noOpts bannerThenReloadThrows =
     (Inl atCapacityError,
      [Query ''text=Verify you are human'', Query ''.hcaptcha-box'', XPath capacityXPath,
       Reload 120000])"
proof -
  have "bannerPresent (bannerThenReloadThrows 0)"
    "reload (bannerThenReloadThrows 0) = Some (JsError ''Navigation failed'')"
    "cycleCalls bannerThenReloadThrows 0 =
       [Query ''text=Verify you are human'', Query ''.hcaptcha-box'', XPath capacityXPath]"
    by (simp_all add: bannerThenReloadThrows_def bannerPresent_def cycleCalls_def
          solveSimpleCaptchas_def noCaptcha_def)
  then show ?thesis
    by (simp add: checkForChatGPTAtCapacity_def loop_reload_throws)
qed

text \<open>A callback that asks for a settlement of an unsettled promise settles it so.\<close>

lemma asking_settles:
  "waitInv s \<Longrightarrow> \<not> resolved s \<Longrightarrow> waitStep poll s e = Some s' \<Longrightarrow> asks e = Some x \<Longrightarrow>
   resolved s' \<and> settlements s' = [x]"
  by (cases e) (auto simp: waitInv_def split: if_splits prod.splits sum.splits)

lemma not_asking_leaves_unsettled:
  "\<not> resolved s \<Longrightarrow> waitStep poll s e = Some s' \<Longrightarrow> asks e = None \<Longrightarrow> \<not> resolved s'"
  by (cases e) (auto split: if_splits prod.splits sum.splits)

lemma run_settles_as_first_asks:
  "waitInv s \<Longrightarrow> \<not> resolved s \<Longrightarrow> waitRun poll s es = Some s' \<Longrightarrow>
   settlements s' = (case firstSettling es of None \<Rightarrow> [] | Some x \<Rightarrow> [x]) \<and>
   (resolved s' \<longleftrightarrow> firstSettling es \<noteq> None)"
proof (induction es arbitrary: s)
  case Nil
  then show ?case by (simp add: waitInv_def)
next
  case (Cons e es)
  from Cons.prems(3) obtain s1 where
    s1: "waitStep poll s e = Some s1" "waitRun poll s1 es = Some s'"
    by (auto split: option.splits)
  show ?case
  proof (cases "asks e")
    case None
    from not_asking_leaves_unsettled [OF Cons.prems(2) s1(1) None] have "\<not> resolved s1" .
    from Cons.IH [OF waitInv_step [OF Cons.prems(1) s1(1)] this s1(2)] None
    show ?thesis by simp
  next
    case (Some x)
    from asking_settles [OF Cons.prems(1,2) s1(1) Some]
    have r: "resolved s1" "settlements s1 = [x]" by simp_all
    from disarmed_run [OF r(1) s1(2)] r(2) Some show ?thesis by simp
  qed
qed

lemma firstSettling_member:
  "e \<in> set es \<Longrightarrow> asks e \<noteq> None \<Longrightarrow> firstSettling es \<noteq> None"
  by (induction es) (auto split: option.splits)

text \<open>
  C2.  The promise of a guarded wait is settled by the first callback that asks for a
  settlement (the condition fulfilling or rejecting, or a poll whose check throws), with
  what that callback asks, and by no other: after any sequence of callbacks the calls made
  to \<open>resolve\<close> and \<open>reject\<close> are exactly that one, or none while no callback has asked.
  So there is at most one settlement, and exactly one once the condition has settled.
  While the promise is unsettled the handlers of the condition are armed and settle it, and
  so does a throwing check.  Once it is settled, whatever callbacks follow (the late
  condition handler, a timer still armed, a check still in flight), the settlement stays
  as it is and no timer is armed again.
\<close>

theorem guarded_wait_settles_once:
  "waitForConditionOrAtCapacity p es = Some s \<Longrightarrow>
   settlements s = (case firstSettling es of None \<Rightarrow> [] | Some x \<Rightarrow> [x]) \<and>
   (resolved s \<longleftrightarrow> firstSettling es \<noteq> None) \<and>
   length (settlements s) \<le> 1 \<and>
   (ConditionFulfils \<in> set es \<or> (\<exists>err. ConditionRejects err \<in> set es) \<longrightarrow>
      length (settlements s) = 1) \<and>
   (\<not> resolved s \<longrightarrow>
      waitStep (waitPollingIntervalMs p) s ConditionFulfils =
        Some (s\<lparr>conditionPending := False, resolved := True, settlements := [Fulfilled]\<rparr>) \<and>
      (\<forall>err. waitStep (waitPollingIntervalMs p) s (ConditionRejects err) =
        Some (s\<lparr>conditionPending := False, resolved := True, settlements := [Rejected err]\<rparr>)) \<and>
      (\<forall>pg err. checkPending s \<and> fst (checkForChatGPTAtCapacity noOpts pg) = Inl err \<longrightarrow>
         (\<exists>s'. waitStep (waitPollingIntervalMs p) s (CheckSettles pg) = Some s' \<and>
            resolved s' \<and> settlements s' = [Rejected err]))) \<and>
   (\<forall>e s' x. \<not> resolved s \<and> waitStep (waitPollingIntervalMs p) s e = Some s' \<and>
        asks e = Some x \<longrightarrow>
      resolved s' \<and> settlements s' = [x]) \<and>
   (\<forall>e s'. \<not> resolved s \<and> waitStep (waitPollingIntervalMs p) s e = Some s' \<and> resolved s' \<longrightarrow>
      (\<exists>x. asks e = Some x \<and> settlements s' = [x])) \<and>
   (\<forall>es' s'. resolved s \<and> waitRun (waitPollingIntervalMs p) s es' = Some s' \<longrightarrow>
      settlements s' = settlements s \<and> timers s' = timers s)"
proof -
  assume r: "waitForConditionOrAtCapacity p es = Some s"
  let ?poll = "waitPollingIntervalMs p"
  from r have inv: "waitInv s" by (rule waitInv_reachable)
  have first: "settlements s = (case firstSettling es of None \<Rightarrow> [] | Some x \<Rightarrow> [x])"
    "resolved s \<longleftrightarrow> firstSettling es \<noteq> None"
    using run_settles_as_first_asks [OF waitInv_start _ r [unfolded waitForConditionOrAtCapacity_def]]
    by (simp_all add: waitStart_def)
  have le: "length (settlements s) \<le> 1" using inv by (simp add: waitInv_def)
  have once: "length (settlements s) = 1"
    if "ConditionFulfils \<in> set es \<or> (\<exists>err. ConditionRejects err \<in> set es)"
  proof -
    from that have "firstSettling es \<noteq> None"
      by (auto dest: firstSettling_member)
    with first(1) show ?thesis by auto
  qed
  have armed: "waitStep ?poll s ConditionFulfils =
        Some (s\<lparr>conditionPending := False, resolved := True, settlements := [Fulfilled]\<rparr>) \<and>
      (\<forall>err. waitStep ?poll s (ConditionRejects err) =
        Some (s\<lparr>conditionPending := False, resolved := True, settlements := [Rejected err]\<rparr>)) \<and>
      (\<forall>pg err. checkPending s \<and> fst (checkForChatGPTAtCapacity noOpts pg) = Inl err \<longrightarrow>
         (\<exists>s'. waitStep ?poll s (CheckSettles pg) = Some s' \<and>
            resolved s' \<and> settlements s' = [Rejected err]))"
    if "\<not> resolved s"
    using inv that by (auto simp: waitInv_def split: prod.splits sum.splits)
  have asked: "resolved s' \<and> settlements s' = [x]"
    if "\<not> resolved s \<and> waitStep ?poll s e = Some s' \<and> asks e = Some x" for e s' x
    using asking_settles [OF inv] that by blast
  have asker: "\<exists>x. asks e = Some x \<and> settlements s' = [x]"
    if "\<not> resolved s \<and> waitStep ?poll s e = Some s' \<and> resolved s'" for e s'
    using first_settles [OF inv] that by blast
  have disarmed: "settlements s' = settlements s \<and> timers s' = timers s"
    if "resolved s \<and> waitRun ?poll s es' = Some s'" for es' s'
    using disarmed_run that by blast
  from first le once armed asked asker disarmed show ?thesis by blast
qed

theorem guarded_wait_settles_once_witness:
  "waitForConditionOrAtCapacity None
     [TimerFires, CheckSettles (bannerFor 0),
      ConditionRejects (NamedError ''TimeoutError'' ''Waiting for selector failed'')] =
     Some afterRejection \<and>
   firstSettling
     [TimerFires, CheckSettles (bannerFor 0),
      ConditionRejects (NamedError ''TimeoutError'' ''Waiting for selector failed'')] =
     Some (Rejected (NamedError ''TimeoutError'' ''Waiting for selector failed'')) \<and>
   settlements afterRejection =
     [Rejected (NamedError ''TimeoutError'' ''Waiting for selector failed'')] \<and>
   length (settlements afterRejection) = 1 \<and>
   waitRun 500 afterRejection [TimerFires] = Some (afterRejection\<lparr>timerPending := False\<rparr>) \<and>
   settlements (afterRejection\<lparr>timerPending := False\<rparr>) = settlements afterRejection \<and>
   timers (afterRejection\<lparr>timerPending := False\<rparr>) = timers afterRejection \<and>
   waitForConditionOrAtCapacity None [TimerFires] = Some afterTimer \<and>
   \<not> resolved afterTimer \<and> checkPending afterTimer \<and>
   fst (checkForChatGPTAtCapacity noOpts bannerThenReloadThrows) = Inl atCapacityError \<and>
   asks (CheckSettles bannerThenReloadThrows) = Some (Rejected atCapacityError) \<and>
   waitStep 500 afterTimer (CheckSettles bannerThenReloadThrows) =
     Some (afterTimer\<lparr>checkPending := False, resolved := True,
             settlements := [Rejected atCapacityError],
             pollerCalls := [Query ''text=Verify you are human'', Query ''.hcaptcha-box'',
                             XPath capacityXPath, Reload 120000]\<rparr>) \<and>
   waitStep 500 afterTimer ConditionFulfils =
     Some (afterTimer\<lparr>conditionPending := False, resolved := True, settlements := [Fulfilled]\<rparr>)"
proof -
  let ?timeout = "NamedError ''TimeoutError'' ''Waiting for selector failed''"
  let ?es = "[TimerFires, CheckSettles (bannerFor 0), ConditionRejects ?timeout]"
  let ?polled = "afterTimer\<lparr>checkPending := False, resolved := True,
             settlements := [Rejected atCapacityError],
             pollerCalls := [Query ''text=Verify you are human'', Query ''.hcaptcha-box'',
                             XPath capacityXPath, Reload 120000]\<rparr>"
  have p: "waitPollingIntervalMs None = 500" by (simp add: waitPollingIntervalMs_def)
  have r1: "waitForConditionOrAtCapacity None ?es = Some afterRejection"
    by (simp add: waitForConditionOrAtCapacity_def p waitStart_def afterRejection_def
          check_bannerFor_0)
  have f1: "firstSettling ?es = Some (Rejected ?timeout)"
    by (simp add: check_bannerFor_0)
  have res1: "resolved afterRejection" by (simp add: afterRejection_def)
  have late: "waitRun 500 afterRejection [TimerFires] = Some (afterRejection\<lparr>timerPending := False\<rparr>)"
    by (simp add: afterRejection_def)
  have r2: "waitForConditionOrAtCapacity None [TimerFires] = Some afterTimer"
    by (simp add: waitForConditionOrAtCapacity_def p waitStart_def afterTimer_def)
  have open2: "\<not> resolved afterTimer" "checkPending afterTimer" by (simp_all add: afterTimer_def)
  have c: "fst (checkForChatGPTAtCapacity noOpts bannerThenReloadThrows) = Inl atCapacityError"
    by (simp add: check_bannerThenReloadThrows)
  have a: "asks (CheckSettles bannerThenReloadThrows) = Some (Rejected atCapacityError)"
    by (simp add: check_bannerThenReloadThrows)
  have s2: "waitStep 500 afterTimer (CheckSettles bannerThenReloadThrows) = Some ?polled"
    by (simp add: afterTimer_def check_bannerThenReloadThrows)
  note t1 = guarded_wait_settles_once [OF r1, unfolded p]
  note t2 = guarded_wait_settles_once [OF r2, unfolded p]
  from t1 f1 have "settlements afterRejection = [Rejected ?timeout]" by simp
  moreover from t1 have "length (settlements afterRejection) = 1" by auto
  moreover from t1 res1 late
  have "settlements (afterRejection\<lparr>timerPending := False\<rparr>) = settlements afterRejection \<and>
    timers (afterRejection\<lparr>timerPending := False\<rparr>) = timers afterRejection" by blast
  moreover from t2 open2(1) s2 a
  have "resolved ?polled \<and> settlements ?polled = [Rejected atCapacityError]" by blast
  moreover from t2 open2(1)
  have "waitStep 500 afterTimer ConditionFulfils =
     Some (afterTimer\<lparr>conditionPending := False, resolved := True, settlements := [Fulfilled]\<rparr>)"
    by blast
  ultimately show ?thesis using r1 f1 late r2 open2 c a s2 by blast
qed

text \<open>
  C9.  In every state the guarded wait can reach: if \<open>resolve\<close> has been called, the
  primary condition's promise has fulfilled; a timer callback never settles the promise;
  a poll whose check returns leaves the settlement as it is and, while \<open>resolved\<close> is unset,
  only arms the next timer; and a poll whose check throws can add nothing but a rejection.
\<close>

theorem poller_only_rejects:
  "waitForConditionOrAtCapacity p es = Some s \<Longrightarrow>
   (Fulfilled \<in> set (settlements s) \<longrightarrow> ConditionFulfils \<in> set es) \<and>
   (\<forall>s'. waitStep (waitPollingIntervalMs p) s TimerFires = Some s' \<longrightarrow>
      settlements s' = settlements s) \<and>
   (\<forall>pg s'. waitStep (waitPollingIntervalMs p) s (CheckSettles pg) = Some s' \<and>
        fst (checkForChatGPTAtCapacity noOpts pg) = Inr () \<longrightarrow>
      settlements s' = settlements s \<and>
      (\<not> resolved s \<longrightarrow>
         \<not> resolved s' \<and> timerPending s' \<and> timers s' = timers s @ [waitPollingIntervalMs p])) \<and>
   (\<forall>pg s'. waitStep (waitPollingIntervalMs p) s (CheckSettles pg) = Some s' \<and>
        Fulfilled \<in> set (settlements s') \<longrightarrow>
      Fulfilled \<in> set (settlements s))"
proof (intro conjI allI impI)
  assume r: "waitForConditionOrAtCapacity p es = Some s"
  show "ConditionFulfils \<in> set es" if "Fulfilled \<in> set (settlements s)"
    using fulfilled_run [OF r [unfolded waitForConditionOrAtCapacity_def] that]
    by (simp add: waitStart_def)
  show "settlements s' = settlements s"
    if "waitStep (waitPollingIntervalMs p) s TimerFires = Some s'" for s'
    using that by (auto split: if_splits)
  show "settlements s' = settlements s"
    if "waitStep (waitPollingIntervalMs p) s (CheckSettles pg) = Some s' \<and>
        fst (checkForChatGPTAtCapacity noOpts pg) = Inr ()" for pg s'
    using that by (auto split: if_splits prod.splits sum.splits)
  show "\<not> resolved s'" "timerPending s'" "timers s' = timers s @ [waitPollingIntervalMs p]"
    if "waitStep (waitPollingIntervalMs p) s (CheckSettles pg) = Some s' \<and>
        fst (checkForChatGPTAtCapacity noOpts pg) = Inr ()" "\<not> resolved s" for pg s'
    using that by (auto split: if_splits prod.splits sum.splits)
  show "Fulfilled \<in> set (settlements s)"
    if "waitStep (waitPollingIntervalMs p) s (CheckSettles pg) = Some s' \<and>
        Fulfilled \<in> set (settlements s')" for pg s'
    using fulfilled_step that by blast
qed

theorem poller_only_rejects_witness:
  "waitForConditionOrAtCapacity None [TimerFires] = Some afterTimer \<and>
   fst (checkForChatGPTAtCapacity noOpts (bannerFor 0)) = Inr () \<and>
   waitStep 500 afterTimer (CheckSettles (bannerFor 0)) = Some afterReturningCheck \<and>
   settlements afterReturningCheck = settlements afterTimer \<and>
   \<not> resolved afterReturningCheck \<and> timerPending afterReturningCheck \<and>
   timers afterReturningCheck = timers afterTimer @ [500] \<and>
   waitForConditionOrAtCapacity None [ConditionFulfils] = Some afterFulfilment \<and>
   Fulfilled \<in> set (settlements afterFulfilment) \<and>
   ConditionFulfils \<in> set [ConditionFulfils] \<and>
   waitStep 500 afterFulfilment TimerFires = Some (afterFulfilment\<lparr>timerPending := False\<rparr>) \<and>
   settlements (afterFulfilment\<lparr>timerPending := False\<rparr>) = settlements afterFulfilment \<and>
   waitForConditionOrAtCapacity None [TimerFires, ConditionFulfils] =
     Some (afterFulfilment\<lparr>timerPending := False, checkPending := True\<rparr>) \<and>
   waitStep 500 (afterFulfilment\<lparr>timerPending := False, checkPending := True\<rparr>)
     (CheckSettles bannerThenReloadThrows) =
     Some (afterFulfilment\<lparr>timerPending := False, checkPending := False,
             pollerCalls := [Query ''text=Verify you are human'', Query ''.hcaptcha-box'',
                             XPath capacityXPath, Reload 120000]\<rparr>)"
proof -
  let ?late = "afterFulfilment\<lparr>timerPending := False, checkPending := True\<rparr>"
  let ?done = "afterFulfilment\<lparr>timerPending := False, checkPending := False,
             pollerCalls := [Query ''text=Verify you are human'', Query ''.hcaptcha-box'',
                             XPath capacityXPath, Reload 120000]\<rparr>"
  have p: "waitPollingIntervalMs None = 500" by (simp add: waitPollingIntervalMs_def)
  have r1: "waitForConditionOrAtCapacity None [TimerFires] = Some afterTimer"
    by (simp add: waitForConditionOrAtCapacity_def p waitStart_def afterTimer_def)
  have c: "fst (checkForChatGPTAtCapacity noOpts (bannerFor 0)) = Inr ()"
    by (simp add: check_bannerFor_0)
  have s1: "waitStep 500 afterTimer (CheckSettles (bannerFor 0)) = Some afterReturningCheck"
    by (simp add: afterTimer_def afterReturningCheck_def check_bannerFor_0)
  have r2: "waitForConditionOrAtCapacity None [ConditionFulfils] = Some afterFulfilment"
    by (simp add: waitForConditionOrAtCapacity_def p waitStart_def afterFulfilment_def)
  have s2: "waitStep 500 afterFulfilment TimerFires = Some (afterFulfilment\<lparr>timerPending := False\<rparr>)"
    by (simp add: afterFulfilment_def)
  have r3: "waitForConditionOrAtCapacity None [TimerFires, ConditionFulfils] = Some ?late"
    by (simp add: waitForConditionOrAtCapacity_def p waitStart_def afterFulfilment_def)
  have s3: "waitStep 500 ?late (CheckSettles bannerThenReloadThrows) = Some ?done"
    by (simp add: afterFulfilment_def check_bannerThenReloadThrows)
  note t1 = poller_only_rejects [OF r1, unfolded p]
  note t2 = poller_only_rejects [OF r2, unfolded p]
  note t3 = poller_only_rejects [OF r3, unfolded p]
  from t1 s1 c have a: "settlements afterReturningCheck = settlements afterTimer \<and>
      (\<not> resolved afterTimer \<longrightarrow>
         \<not> resolved afterReturningCheck \<and> timerPending afterReturningCheck \<and>
         timers afterReturningCheck = timers afterTimer @ [500])"
    by blast
  moreover have "\<not> resolved afterTimer" by (simp add: afterTimer_def)
  moreover have f: "Fulfilled \<in> set (settlements afterFulfilment)"
    by (simp add: afterFulfilment_def)
  moreover from t2 f have "ConditionFulfils \<in> set [ConditionFulfils]" by blast
  moreover from t2 s2
  have "settlements (afterFulfilment\<lparr>timerPending := False\<rparr>) = settlements afterFulfilment"
    by blast
  moreover from t3 s3 have "Fulfilled \<in> set (settlements ?done) \<longrightarrow>
      Fulfilled \<in> set (settlements ?late)" by blast
  ultimately show ?thesis using r1 c s1 r2 s2 r3 s3 by blast
qed

text \<open>
  C3.  The source comments the \<open>catch\<close> of the polling loop with "ignore errors likely due
  to navigation", and a failure met before any banner was seen is indeed dropped.  But the
  \<open>catch\<close> leaves the loop with \<open>isAtCapacity\<close> as the previous query set it: a reload
  that throws right after the first banner sighting makes the guard throw the at-capacity
  error, with nine retries unused, and the guarded wait is rejected with status 503 although
  its primary condition fulfils afterwards.
\<close>

theorem poll_failure_after_banner_rejects_guarded_wait:
  "checkForChatGPTAtCapacity noOpts bannerThenReloadThrows =
     (Inl (ChatGPTError ''ChatGPT is at capacity'' (Some 503)),
      [Query ''text=Verify you are human'', Query ''.hcaptcha-box'', XPath capacityXPath,
       Reload 120000]) \<and>
   awaited (waitForConditionOrAtCapacity None
      [TimerFires, CheckSettles bannerThenReloadThrows, ConditionFulfils]) =
     Some (Rejected (ChatGPTError ''ChatGPT is at capacity'' (Some 503)))"
  by (simp add: waitForConditionOrAtCapacity_def waitPollingIntervalMs_def waitStart_def
        check_bannerThenReloadThrows awaited_def atCapacityError_def)

text \<open>What the guard does swallow: a failure of the very first banner query.\<close>

lemma poll_failure_before_banner_swallowed:
  "xpath (pg 0) = Inl err \<Longrightarrow> fst (checkForChatGPTAtCapacity opts pg) = Inr ()"
  by (simp add: check_outcome loop_query_throws)

text \<open>No failure of the page is ever rethrown as itself.\<close>

lemma guard_never_rethrows:
  "fst (checkForChatGPTAtCapacity opts pg) \<noteq> Inl (JsError msg)"
  by (simp add: check_outcome atCapacityError_def)

section \<open>What the steps add to the log\<close>

lemma emitsI:
  "(\<And>w. \<exists>cs. calls (snd (m w)) = calls w @ cs \<and> list_all P cs) \<Longrightarrow> emits P m"
  by (simp add: emits_def)

lemma emitsD: "emits P m \<Longrightarrow> \<exists>cs. calls (snd (m w)) = calls w @ cs \<and> list_all P cs"
  by (simp add: emits_def)

lemma emits_returns: "emits P (returns x)"
  by (simp add: emits_def returns_def)

lemma emits_raise: "emits P (raise err)"
  by (simp add: emits_def raise_def)

lemma emits_await: "P c \<Longrightarrow> emits P (await e line c)"
  by (simp add: emits_def await_def logged_def split: option.splits)

lemma emits_unawaited: "P c \<Longrightarrow> emits P (unawaited c)"
  by (simp add: emits_def unawaited_def logged_def)

lemma emits_delay: "P (Pause ms) \<Longrightarrow> emits P (delay ms)"
  by (simp add: emits_def delay_def logged_def)

lemma emits_andThen:
  assumes "emits P m" and "\<And>x. emits P (f x)"
  shows "emits P (andThen m f)"
proof (rule emitsI)
  fix w
  obtain r w1 where m: "m w = (r, w1)" by (cases "m w")
  from emitsD [OF assms(1), of w] m obtain cs where
    cs: "calls w1 = calls w @ cs" "list_all P cs" by auto
  show "\<exists>cs. calls (snd (andThen m f w)) = calls w @ cs \<and> list_all P cs"
  proof (cases r)
    case (Returns x)
    from emitsD [OF assms(2), of x w1] obtain cs' where
      "calls (snd (f x w1)) = calls w1 @ cs'" "list_all P cs'" by auto
    with cs Returns m show ?thesis
      by (intro exI [of _ "cs @ cs'"]) (simp add: andThen_def)
  qed (use cs m in \<open>auto simp: andThen_def\<close>)
qed

lemma emits_inOrder: "(\<And>m. m \<in> set ms \<Longrightarrow> emits P m) \<Longrightarrow> emits P (inOrder ms)"
  by (induction ms) (auto intro: emits_returns emits_andThen)

lemma emits_swallow: "emits P m \<Longrightarrow> emits P (swallow m)"
proof (rule emitsI)
  fix w
  assume "emits P m"
  from emitsD [OF this, of w] show "\<exists>cs. calls (snd (swallow m w)) = calls w @ cs \<and> list_all P cs"
    by (cases "m w") (auto simp: swallow_def split: outcome.splits)
qed

lemma emits_rethrowAs: "emits P m \<Longrightarrow> emits P (rethrowAs f m)"
proof (rule emitsI)
  fix w
  assume "emits P m"
  from emitsD [OF this, of w]
  show "\<exists>cs. calls (snd (rethrowAs f m w)) = calls w @ cs \<and> list_all P cs"
    by (cases "m w") (auto simp: rethrowAs_def split: outcome.splits)
qed

lemma emits_allOf:
  assumes "emits P p" and "emits P q"
  shows "emits P (allOf b p q)"
proof (rule emitsI)
  fix w
  obtain r1 w1 where p: "p w = (r1, w1)" by (cases "p w")
  obtain r2 w2 where q: "q w1 = (r2, w2)" by (cases "q w1")
  from emitsD [OF assms(1), of w] p obtain cs where
    cs: "calls w1 = calls w @ cs" "list_all P cs" by auto
  from emitsD [OF assms(2), of w1] q obtain cs' where
    cs': "calls w2 = calls w1 @ cs'" "list_all P cs'" by auto
  from cs cs' p q show "\<exists>cs. calls (snd (allOf b p q w)) = calls w @ cs \<and> list_all P cs"
    by (intro exI [of _ "cs @ cs'"]) (simp add: allOf_def)
qed

lemma emits_ifFlag: "emits P m1 \<Longrightarrow> emits P m2 \<Longrightarrow> emits P (ifFlag flag m1 m2)"
  by (simp add: emits_def ifFlag_def)

lemma emits_if: "(c \<Longrightarrow> emits P m1) \<Longrightarrow> (\<not> c \<Longrightarrow> emits P m2) \<Longrightarrow> emits P (if c then m1 else m2)"
  by simp

lemma emits_pressEnterAndNavigate:
  "P (WaitForNavigation None) \<Longrightarrow> P (Press ''Enter'') \<Longrightarrow>
   emits P (pressEnterAndNavigate e navLine pressLine)"
  by (simp add: emits_def pressEnterAndNavigate_def await_def logged_def
        split: option.splits)

lemma emits_firstPageOrNew:
  "P (Pages b) \<Longrightarrow> P (NewPage b) \<Longrightarrow> emits P (firstPageOrNew e line b)"
  unfolding firstPageOrNew_def
  by (auto intro!: emits_andThen emits_await emits_returns split: list.splits)

text \<open>The guard reloads with its timeout option and makes no other call with a timeout.\<close>

lemma reloadsWith_solveSimpleCaptchas: "list_all (reloadsWith t) (solveSimpleCaptchas p)"
  by (simp add: solveSimpleCaptchas_def clickCaptcha_def split: sum.splits option.splits)

lemma reloadsWith_cycleCalls: "list_all (reloadsWith t) (cycleCalls pg k)"
  by (simp add: cycleCalls_def reloadsWith_solveSimpleCaptchas)

lemma reloadsWith_loop:
  "list_all (reloadsWith tmo) (snd (snd (capacityLoop tmo poll rts pg i c n)))"
proof (induction tmo poll rts pg i c n rule: capacityLoop.induct)
  case (1 tmo poll rts pg i c n)
  show ?case
  proof (cases rule: loop_cases [where pg = pg and i = i and rts = rts and n = n])
    case (again)
    then obtain len where len: "xpath (pg i) = Inr len" "len \<noteq> 0"
      by (auto simp: bannerPresent_def split: sum.splits)
    from "1.IH" [OF _ len(1) len(2) again(2) again(3)]
    have "list_all (reloadsWith tmo)
            (snd (snd (capacityLoop tmo poll rts pg (Suc i) True (n + 1))))" by simp
    with again show ?thesis
      by (auto simp add: loop_again reloadsWith_cycleCalls split: prod.splits)
  qed (simp_all add: loop_exits reloadsWith_cycleCalls)
qed

lemma reloadsWith_check:
  "list_all (reloadsWith (capacityTimeoutMs opts)) (snd (checkForChatGPTAtCapacity opts pg))"
  unfolding check_calls by (rule reloadsWith_loop)

lemma emits_capacityCheck:
  assumes "\<And>a. reloadsWith (capacityTimeoutMs opts) a \<Longrightarrow> P (Probe a)"
  shows "emits P (capacityCheck e line opts)"
proof (rule emitsI)
  fix w
  obtain r tr where c: "checkForChatGPTAtCapacity opts (capacityPage e line) = (r, tr)"
    by (cases "checkForChatGPTAtCapacity opts (capacityPage e line)")
  with reloadsWith_check [of opts "capacityPage e line"]
  have "list_all (reloadsWith (capacityTimeoutMs opts)) tr" by simp
  with assms have "list_all P (map Probe tr)" by (simp add: list_all_iff)
  with c show "\<exists>cs. calls (snd (capacityCheck e line opts w)) = calls w @ cs \<and> list_all P cs"
    by (cases r) (auto simp: capacityCheck_def logged_def)
qed

text \<open>The poller of a guarded wait checks with no options: it reloads with 120000.\<close>

lemma pollerCalls_step:
  "waitStep poll s ev = Some s' \<Longrightarrow> list_all (reloadsWith 120000) (pollerCalls s) \<Longrightarrow>
   list_all (reloadsWith 120000) (pollerCalls s')"
proof (cases ev)
  case (CheckSettles pg)
  assume a: "waitStep poll s ev = Some s'" "list_all (reloadsWith 120000) (pollerCalls s)"
  from reloadsWith_check [of noOpts pg]
  have "list_all (reloadsWith 120000) (snd (checkForChatGPTAtCapacity noOpts pg))" by simp
  with a CheckSettles show ?thesis
    by (auto split: if_splits prod.splits sum.splits)
qed (auto split: if_splits)

lemma pollerCalls_run:
  "waitRun poll s es = Some s' \<Longrightarrow> list_all (reloadsWith 120000) (pollerCalls s) \<Longrightarrow>
   list_all (reloadsWith 120000) (pollerCalls s')"
  by (induction es arbitrary: s) (auto split: option.splits dest: pollerCalls_step)

lemma emits_guardedWait:
  assumes "P c" and "\<And>a. reloadsWith 120000 a \<Longrightarrow> P (Probe a)"
  shows "emits P (guardedWait e line c)"
proof (rule emitsI)
  fix w
  show "\<exists>cs. calls (snd (guardedWait e line c w)) = calls w @ cs \<and> list_all P cs"
  proof (cases "waitForConditionOrAtCapacity None (guardEvents e line)")
    case None
    with assms(1) show ?thesis by (simp add: guardedWait_def logged_def)
  next
    case (Some s)
    then have "list_all (reloadsWith 120000) (pollerCalls s)"
      unfolding waitForConditionOrAtCapacity_def
      by (rule pollerCalls_run) (simp add: waitStart_def)
    with assms(2) have "list_all P (map Probe (pollerCalls s))" by (simp add: list_all_iff)
    with Some assms(1) show ?thesis
      by (auto simp: guardedWait_def logged_def split: list.splits settlement.splits)
  qed
qed

lemma emits_recaptchaLoop:
  assumes "P (HandleValue ''textarea#g-recaptcha-response'')" and "P (Pause poll)"
  shows "emits P (recaptchaLoop poll tmo start rs)"
proof (rule emitsI)
  fix w
  from assms show "\<exists>cs. calls (snd (recaptchaLoop poll tmo start rs w)) = calls w @ cs \<and> list_all P cs"
  proof (induction rs arbitrary: w)
    case Nil
    then show ?case by simp
  next
    case (Cons r rs)
    obtain reading now where r: "r = (reading, now)" by (cases r)
    let ?w' = "logged [HandleValue ''textarea#g-recaptcha-response'', Pause poll] w"
    from Cons.IH [OF Cons.prems, of ?w'] obtain cs where
      cs: "calls (snd (recaptchaLoop poll tmo start rs ?w')) = calls ?w' @ cs" "list_all P cs"
      by auto
    then have again: "\<exists>cs. calls (snd (recaptchaLoop poll tmo start rs ?w')) = calls w @ cs \<and>
        list_all P cs"
      using Cons.prems
      by (intro exI [of _ "[HandleValue ''textarea#g-recaptcha-response'', Pause poll] @ cs"])
         (simp add: logged_def)
    show ?case
      using Cons.prems again unfolding r
      by (auto simp: logged_def split: sum.splits option.splits)
  qed
qed

lemma emits_waitForRecaptcha:
  assumes "\<And>a. \<forall>t. reloadsWith t a \<Longrightarrow> P (Probe a)"
    and "P (HandleValue ''textarea#g-recaptcha-response'')" and "\<And>ms. P (Pause ms)"
  shows "emits P (waitForRecaptcha e p t)"
proof (rule emitsI)
  fix w
  let ?tr = "map Probe (solveSimpleCaptchas (simpleCaptchas (recaptchaAnswers e)))"
  let ?q = "Probe (Query ''textarea#g-recaptcha-response'')"
  have "\<forall>a \<in> set (solveSimpleCaptchas (simpleCaptchas (recaptchaAnswers e))). \<forall>t. reloadsWith t a"
    using reloadsWith_solveSimpleCaptchas [of _ "simpleCaptchas (recaptchaAnswers e)"]
    by (auto simp: list_all_iff)
  then have tr: "list_all P ?tr"
    using assms(1) by (auto simp: list_all_iff)
  have q: "P ?q" by (rule assms(1)) simp
  have loop: "\<exists>cs. calls (snd (recaptchaLoop poll t start rs (logged [?q] (logged ?tr w)))) =
      calls w @ cs \<and> list_all P cs" for poll start rs
  proof -
    from emitsD [OF emits_recaptchaLoop [of P poll t start rs, OF assms(2) assms(3)],
        of "logged [?q] (logged ?tr w)"]
    obtain cs where "calls (snd (recaptchaLoop poll t start rs (logged [?q] (logged ?tr w)))) =
      calls (logged [?q] (logged ?tr w)) @ cs" "list_all P cs" by auto
    with tr q show ?thesis
      by (intro exI [of _ "?tr @ [?q] @ cs"]) (simp add: logged_def)
  qed
  show "\<exists>cs. calls (snd (waitForRecaptcha e p t w)) = calls w @ cs \<and> list_all P cs"
    using tr q loop
    by (auto simp: waitForRecaptcha_def Let_def logged_def split: sum.splits)
qed

lemma emits_mono: "emits P m \<Longrightarrow> (\<And>c. P c \<Longrightarrow> Q c) \<Longrightarrow> emits Q m"
  unfolding emits_def list_all_iff by blast

lemmas emits_steps =
  emits_returns emits_raise emits_await emits_unawaited emits_delay emits_andThen emits_inOrder
  emits_swallow emits_rethrowAs emits_allOf emits_ifFlag emits_if emits_pressEnterAndNavigate
  emits_firstPageOrNew emits_capacityCheck emits_guardedWait emits_waitForRecaptcha

section \<open>The calls of getBrowser and of the try block\<close>

lemma tryCall_probe:
  "reloadsWith tmo a \<Longrightarrow> tryCall creds own tmo (Probe a)"
  "reloadsWith 120000 a \<Longrightarrow> tryCall True own tmo (Probe a)"
  "\<forall>t. reloadsWith t a \<Longrightarrow> tryCall creds own tmo (Probe a)"
  by simp_all

lemma emits_validateProxyIp: "emits (tryCall creds own tmo) (validateProxyIp e b m)"
  unfolding validateProxyIp_def
  by (auto intro!: emits_steps)

lemma emits_setNopechaKey: "emits (tryCall creds own tmo) (setNopechaKey e b k)"
proof (cases "serviceWorkerHosts e")
  case (Inl err)
  then show ?thesis by (simp add: setNopechaKey_def emits_def logged_def)
next
  case (Inr hosts)
  show ?thesis
  proof (cases "filter (\<lambda>h. h \<noteq> []) hosts")
    case Nil
    with Inr show ?thesis
      by (auto simp: setNopechaKey_def intro!: emits_steps)
  next
    case (Cons extensionId ids)
    with Inr show ?thesis
      by (auto simp: setNopechaKey_def intro!: emits_steps)
  qed
qed

lemma emits_initializeNopechaExtension:
  "emits (tryCall creds own tmo) (initializeNopechaExtension e b m k)"
  unfolding initializeNopechaExtension_def
  by (auto intro!: emits_steps emits_setNopechaKey)

lemma getBrowser_unfold:
  "getBrowser e ct nk ep ps m la w =
     andThen
       (await e 322
          (Launch (case la of
                     None \<Rightarrow> puppeteerArgs e (orDefault nk (NOPECHA_KEY e))
                               (orDefault ps (PROXY_SERVER e))
                   | Some args' \<Rightarrow> args')
             (case ep of None \<Rightarrow> defaultChromeExecutablePath e | Some p \<Rightarrow> p)))
       (\<lambda>u.
        andThen (validateProxyIp e (launched e) m) (\<lambda>u.
        andThen (initializeNopechaExtension e (launched e) m (orDefault nk (NOPECHA_KEY e))) (\<lambda>u.
        returns (launched e))))
       (if truthy (orDefault nk (NOPECHA_KEY e))
        then (if truthy (orDefault ct (CAPTCHA_TOKEN e)) \<and> \<not> hasRecaptchaPlugin w
              then logged [UseRecaptchaPlugin (interpolate (orDefault ct (CAPTCHA_TOKEN e)))]
                     (w\<lparr>hasRecaptchaPlugin := True\<rparr>)
              else w)\<lparr>hasNopechaExtension := True\<rparr>
        else (if truthy (orDefault ct (CAPTCHA_TOKEN e)) \<and> \<not> hasRecaptchaPlugin w
              then logged [UseRecaptchaPlugin (interpolate (orDefault ct (CAPTCHA_TOKEN e)))]
                     (w\<lparr>hasRecaptchaPlugin := True\<rparr>)
              else w))"
  by (simp add: getBrowser_def Let_def)

lemma emits_getBrowser: "emits (tryCall creds own tmo) (getBrowser e ct nk ep ps m la)"
proof (rule emitsI)
  fix w
  let ?P = "tryCall creds own tmo"
  let ?u = "UseRecaptchaPlugin (interpolate (orDefault ct (CAPTCHA_TOKEN e)))"
  let ?w1 = "if truthy (orDefault ct (CAPTCHA_TOKEN e)) \<and> \<not> hasRecaptchaPlugin w
             then logged [?u] (w\<lparr>hasRecaptchaPlugin := True\<rparr>) else w"
  let ?w2 = "if truthy (orDefault nk (NOPECHA_KEY e)) then ?w1\<lparr>hasNopechaExtension := True\<rparr>
             else ?w1"
  let ?pre = "if truthy (orDefault ct (CAPTCHA_TOKEN e)) \<and> \<not> hasRecaptchaPlugin w
              then [?u] else []"
  let ?body = "andThen
       (await e 322
          (Launch (case la of
                     None \<Rightarrow> puppeteerArgs e (orDefault nk (NOPECHA_KEY e))
                               (orDefault ps (PROXY_SERVER e))
                   | Some args' \<Rightarrow> args')
             (case ep of None \<Rightarrow> defaultChromeExecutablePath e | Some p \<Rightarrow> p)))
       (\<lambda>u.
        andThen (validateProxyIp e (launched e) m) (\<lambda>u.
        andThen (initializeNopechaExtension e (launched e) m (orDefault nk (NOPECHA_KEY e))) (\<lambda>u.
        returns (launched e))))"
  have "emits ?P ?body"
    by (auto intro!: emits_steps emits_validateProxyIp emits_initializeNopechaExtension)
  from emitsD [OF this, of ?w2] obtain cs where
    cs: "calls (snd (?body ?w2)) = calls ?w2 @ cs" "list_all ?P cs" by blast
  have w2: "calls ?w2 = calls w @ ?pre" by (simp add: logged_def)
  have "calls (snd (getBrowser e ct nk ep ps m la w)) = calls w @ (?pre @ cs)"
    unfolding getBrowser_unfold using cs(1) w2 by simp
  moreover have "list_all ?P (?pre @ cs)" using cs(2) by simp
  ultimately show "\<exists>cs. calls (snd (getBrowser e ct nk ep ps m la w)) = calls w @ cs \<and>
      list_all ?P cs" by blast
qed

lemma emits_acquireBrowser: "emits (tryCall creds own tmo) (acquireBrowser e args)"
  unfolding acquireBrowser_def
  by (cases "browser args") (simp_all add: emits_returns emits_getBrowser)

lemma emits_solveFoundRecaptchas: "emits (tryCall creds own tmo) (solveFoundRecaptchas e)"
  unfolding solveFoundRecaptchas_def
  by (auto intro!: emits_steps)

lemma emits_andThen_result:
  assumes "emits P m" and "\<And>x w w'. m w = (Returns x, w') \<Longrightarrow> R x"
    and "\<And>x. R x \<Longrightarrow> emits P (f x)"
  shows "emits P (andThen m f)"
proof (rule emitsI)
  fix w
  obtain r w1 where m: "m w = (r, w1)" by (cases "m w")
  from emitsD [OF assms(1), of w] m obtain cs where
    cs: "calls w1 = calls w @ cs" "list_all P cs" by auto
  show "\<exists>cs. calls (snd (andThen m f w)) = calls w @ cs \<and> list_all P cs"
  proof (cases r)
    case (Returns x)
    with m have "R x" by (auto intro: assms(2))
    from emitsD [OF assms(3) [OF this], of w1] obtain cs' where
      "calls (snd (f x w1)) = calls w1 @ cs'" "list_all P cs'" by auto
    with cs Returns m show ?thesis
      by (intro exI [of _ "cs @ cs'"]) (simp add: andThen_def)
  qed (use cs m in \<open>auto simp: andThen_def\<close>)
qed

lemma andThen_returns_result:
  "andThen m (\<lambda>u. returns c) w = (Returns x, w') \<Longrightarrow> x = c"
  by (auto simp: andThen_def returns_def split: prod.splits outcome.splits)

lemma emits_googleLogin: "emits (tryCall True own tmo) (googleLogin e em pw)"
  unfolding googleLogin_def
  by (auto intro!: emits_steps)

lemma emits_microsoftLogin: "emits (tryCall True own tmo) (microsoftLogin e em pw)"
  unfolding microsoftLogin_def
  by (auto intro!: emits_steps)

lemma emits_passwordLogin: "emits (tryCall True own tmo) (passwordLogin e tmo em pw)"
  unfolding passwordLogin_def
  by (auto intro!: emits_steps)

lemma capacityTimeoutMs_onlyTimeout [simp]: "capacityTimeoutMs (onlyTimeout t) = t"
  by (simp add: capacityTimeoutMs_def onlyTimeout_def)

lemma emits_submit:
  "emits (tryCall True own tmo)
     (andThen (if g then googleLogin e em pw
               else if ms then microsoftLogin e em pw
               else passwordLogin e tmo em pw) (\<lambda>submitP.
      allOf b (guardedWait e 200 (WaitForNavigation (Some tmo))) (await e 206 submitP)))"
proof (rule emits_andThen_result
    [where R = "\<lambda>c. c = Press ''Enter'' \<or> c = Click ''button[type=\"submit\"]''"])
  show "emits (tryCall True own tmo)
     (if g then googleLogin e em pw
      else if ms then microsoftLogin e em pw else passwordLogin e tmo em pw)"
    by (simp add: emits_googleLogin emits_microsoftLogin emits_passwordLogin)
next
  fix x w w'
  assume "(if g then googleLogin e em pw
           else if ms then microsoftLogin e em pw
           else passwordLogin e tmo em pw) w = (Returns x, w')"
  then show "x = Press ''Enter'' \<or> x = Click ''button[type=\"submit\"]''"
    unfolding googleLogin_def microsoftLogin_def passwordLogin_def
    by (auto split: if_splits dest: andThen_returns_result)
next
  fix x :: call
  assume "x = Press ''Enter'' \<or> x = Click ''button[type=\"submit\"]''"
  then show "emits (tryCall True own tmo)
     (allOf b (guardedWait e 200 (WaitForNavigation (Some tmo))) (await e 206 x))"
    by (auto intro!: emits_steps)
qed

lemma emits_login: "emits (tryCall True own (authTimeout args)) (login e args)"
  unfolding login_def Let_def
  by (intro emits_andThen emits_submit) (auto intro!: emits_steps)

lemma emits_authBody:
  "emits (tryCall (truthy (email args) \<and> truthy (password args)) own (authTimeout args))
     (authBody e args)"
proof (cases "truthy (email args) \<and> truthy (password args)")
  case True
  then show ?thesis
    unfolding authBody_def
    by (auto intro!: emits_steps emits_login emits_solveFoundRecaptchas)
next
  case False
  then show ?thesis
    unfolding authBody_def
    by (auto intro!: emits_steps emits_solveFoundRecaptchas)
qed

lemma emits_calls:
  "emits P m \<Longrightarrow> m w = (r, w') \<Longrightarrow> \<exists>cs. calls w' = calls w @ cs \<and> list_all P cs"
  using emitsD [of P m w] by simp

lemma acquirePage_calls:
  assumes "acquirePage e args b w = (pg, r, w')"
  shows "\<exists>cs. calls w' = calls w @ cs \<and>
    list_all (tryCall creds (page args = None) (authTimeout args)) cs"
proof (cases "page args")
  case (Some p)
  with assms show ?thesis by (simp add: acquirePage_def)
next
  case None
  let ?P = "tryCall creds (page args = None) (authTimeout args)"
  obtain r1 w1 where f: "firstPageOrNew e 92 b w = (r1, w1)"
    by (cases "firstPageOrNew e 92 b w")
  have "emits ?P (firstPageOrNew e 92 b)" by (auto intro!: emits_steps)
  from emits_calls [OF this f] obtain cs where
    cs: "calls w1 = calls w @ cs" "list_all ?P cs" by auto
  show ?thesis
  proof (cases r1)
    case (Returns p)
    let ?m = "inOrder [await e 93 (SetDefaultTimeout (authTimeout args)),
                       if minimize args then await e 96 MinimizePage else returns ()]"
    obtain r2 w2 where m: "?m w1 = (r2, w2)" by (cases "?m w1")
    have "emits ?P ?m" using None by (auto intro!: emits_steps)
    from emits_calls [OF this m] obtain cs' where
      "calls w2 = calls w1 @ cs'" "list_all ?P cs'" by auto
    with cs have "calls w2 = calls w @ (cs @ cs') \<and> list_all ?P (cs @ cs')" by simp
    moreover from assms None f Returns m have "w' = w2" by (simp add: acquirePage_def)
    ultimately show ?thesis by blast
  qed (use assms None f cs in \<open>auto simp: acquirePage_def\<close>)
qed

lemma acquirePage_given:
  "page args = Some p \<Longrightarrow> acquirePage e args b w = (pg, r, w') \<Longrightarrow> pg = Some p"
  by (simp add: acquirePage_def)

text \<open>The \<open>try\<close> block only makes calls of \<open>tryCall\<close>: in particular it closes nothing.\<close>

lemma tryBlock_calls:
  assumes "tryBlock e args w = (b', p', r, w')"
  shows "\<exists>cs. calls w' = calls w @ cs \<and>
     list_all (tryCall (truthy (email args) \<and> truthy (password args)) (page args = None) (authTimeout args)) cs"
proof -
  let ?P = "tryCall (truthy (email args) \<and> truthy (password args)) (page args = None) (authTimeout args)"
  obtain r1 w1 where a: "acquireBrowser e args w = (r1, w1)"
    by (cases "acquireBrowser e args w")
  from emits_calls [OF emits_acquireBrowser a] obtain cs1 where
    cs1: "calls w1 = calls w @ cs1" "list_all ?P cs1" by blast
  show ?thesis
  proof (cases r1)
    case (Returns b)
    obtain r2 w2 where u: "await e 90 (UserAgent b) w1 = (r2, w2)"
      by (cases "await e 90 (UserAgent b) w1")
    have "emits ?P (await e 90 (UserAgent b))" by (auto intro!: emits_steps)
    from emits_calls [OF this u] obtain cs2 where
      cs2: "calls w2 = calls w1 @ cs2" "list_all ?P cs2" by blast
    show ?thesis
    proof (cases r2)
      case r2: (Returns x)
      obtain pg r3 w3 where p: "acquirePage e args b w2 = (pg, r3, w3)"
        by (cases "acquirePage e args b w2") auto
      from acquirePage_calls [OF p] obtain cs3 where
        cs3: "calls w3 = calls w2 @ cs3" "list_all ?P cs3" by blast
      show ?thesis
      proof (cases r3)
        case r3: (Returns y)
        obtain r4 w4 where b: "authBody e args w3 = (r4, w4)" by (cases "authBody e args w3")
        from emits_calls [OF emits_authBody b] obtain cs4 where
          cs4: "calls w4 = calls w3 @ cs4" "list_all ?P cs4" by blast
        from assms a Returns u r2 p r3 b have "w' = w4" by (simp add: tryBlock_def)
        with cs1 cs2 cs3 cs4 show ?thesis
          by (intro exI [of _ "cs1 @ cs2 @ cs3 @ cs4"]) simp
      next
        case (Throws err)
        with assms a Returns u r2 p have "w' = w3" by (simp add: tryBlock_def)
        with cs1 cs2 cs3 show ?thesis by (intro exI [of _ "cs1 @ cs2 @ cs3"]) simp
      next
        case Hangs
        with assms a Returns u r2 p have "w' = w3" by (simp add: tryBlock_def)
        with cs1 cs2 cs3 show ?thesis by (intro exI [of _ "cs1 @ cs2 @ cs3"]) simp
      qed
    next
      case (Throws err)
      with assms a Returns u have "w' = w2" by (simp add: tryBlock_def)
      with cs1 cs2 show ?thesis by (intro exI [of _ "cs1 @ cs2"]) simp
    next
      case Hangs
      with assms a Returns u have "w' = w2" by (simp add: tryBlock_def)
      with cs1 cs2 show ?thesis by (intro exI [of _ "cs1 @ cs2"]) simp
    qed
  next
    case (Throws err)
    with assms a have "w' = w1" by (simp add: tryBlock_def)
    with cs1 show ?thesis by blast
  next
    case Hangs
    with assms a have "w' = w1" by (simp add: tryBlock_def)
    with cs1 show ?thesis by blast
  qed
qed

text \<open>The locals the \<open>finally\<close> block reads.\<close>

lemma tryBlock_page_given:
  assumes "page args = Some p" and "tryBlock e args w = (b', p', r, w')"
  shows "p' = Some p"
proof -
  obtain r1 w1 where a: "acquireBrowser e args w = (r1, w1)"
    by (cases "acquireBrowser e args w")
  show ?thesis
  proof (cases r1)
    case (Returns b)
    obtain r2 w2 where u: "await e 90 (UserAgent b) w1 = (r2, w2)"
      by (cases "await e 90 (UserAgent b) w1")
    show ?thesis
    proof (cases r2)
      case r2: (Returns x)
      obtain pg r3 w3 where pg: "acquirePage e args b w2 = (pg, r3, w3)"
        by (cases "acquirePage e args b w2") auto
      from acquirePage_given [OF assms(1) pg] have "pg = Some p" .
      moreover obtain r4 w4 where "authBody e args w3 = (r4, w4)"
        by (cases "authBody e args w3")
      ultimately show ?thesis
        using assms(2) a Returns u r2 pg by (cases r3) (simp_all add: tryBlock_def)
    qed (use assms a Returns u in \<open>simp_all add: tryBlock_def\<close>)
  qed (use assms a in \<open>simp_all add: tryBlock_def\<close>)
qed

lemma tryBlock_browser_returned:
  assumes "acquireBrowser e args w = (Returns b, w1)" and "tryBlock e args w = (b', p', r, w')"
  shows "b' = Some b"
proof -
  obtain r2 w2 where u: "await e 90 (UserAgent b) w1 = (r2, w2)"
    by (cases "await e 90 (UserAgent b) w1")
  show ?thesis
  proof (cases r2)
    case r2: (Returns x)
    obtain pg r3 w3 where pg: "acquirePage e args b w2 = (pg, r3, w3)"
      by (cases "acquirePage e args b w2") auto
    obtain r4 w4 where "authBody e args w3 = (r4, w4)"
      by (cases "authBody e args w3")
    then show ?thesis
      using assms u r2 pg by (cases r3) (simp_all add: tryBlock_def)
  qed (use assms u in \<open>simp_all add: tryBlock_def\<close>)
qed

text \<open>The calls of the \<open>finally\<close> block.\<close>

lemma finallyBlock_calls:
  "calls (snd (finallyBlock e args b' p' w)) =
     calls w @
     (case browser args of
        Some origBrowser \<Rightarrow>
          (case p' of Some p \<Rightarrow> if p' \<noteq> page args then [ClosePage p] else [] | None \<Rightarrow> [])
      | None \<Rightarrow> (case b' of Some b \<Rightarrow> [CloseBrowser b] | None \<Rightarrow> []))"
  by (simp add: finallyBlock_def await_def returns_def logged_def split: option.splits)

lemma getOpenAIAuth_calls:
  assumes "tryBlock e args w = (b', p', r, w1)"
  shows "calls (snd (getOpenAIAuth e args w)) =
     (if r = Hangs then calls w1 else calls (snd (finallyBlock e args b' p' w1)))"
  using assms
  by (cases r; cases "finallyBlock e args b' p' w1"; cases "fst (finallyBlock e args b' p' w1)")
     (auto simp: getOpenAIAuth_def)

lemma callsOf_split:
  assumes "tryBlock e args w = (b', p', r, w1)"
  shows "\<exists>cs fin. callsOf e args w = cs @ fin \<and>
     list_all (tryCall (truthy (email args) \<and> truthy (password args)) (page args = None) (authTimeout args)) cs \<and>
     (fin = [] \<or> r \<noteq> Hangs \<and> browser args = None \<and> (\<exists>b. b' = Some b \<and> fin = [CloseBrowser b]) \<or>
      r \<noteq> Hangs \<and> browser args \<noteq> None \<and> p' \<noteq> page args \<and> (\<exists>p. p' = Some p \<and> fin = [ClosePage p]))"
proof -
  from tryBlock_calls [OF assms] obtain cs where
    cs: "calls w1 = calls w @ cs"
    "list_all (tryCall (truthy (email args) \<and> truthy (password args)) (page args = None) (authTimeout args)) cs"
    by blast
  show ?thesis
  proof (cases "r = Hangs")
    case True
    with getOpenAIAuth_calls [OF assms] cs show ?thesis
      by (intro exI [of _ cs] exI [of _ "[]"]) (simp add: callsOf_def)
  next
    case False
    let ?fin = "case browser args of
        Some origBrowser \<Rightarrow>
          (case p' of Some p \<Rightarrow> if p' \<noteq> page args then [ClosePage p] else [] | None \<Rightarrow> [])
      | None \<Rightarrow> (case b' of Some b \<Rightarrow> [CloseBrowser b] | None \<Rightarrow> [])"
    from False getOpenAIAuth_calls [OF assms] cs
    have "callsOf e args w = cs @ ?fin"
      by (simp add: callsOf_def finallyBlock_calls)
    with cs(2) False show ?thesis
      by (intro exI [of _ cs] exI [of _ ?fin]) (auto split: option.splits)
  qed
qed

lemma tryCall_not_close: "tryCall creds own tmo c \<Longrightarrow> \<not> isClose c"
  by (cases c) auto

lemma tryCall_not_login: "tryCall False own tmo c \<Longrightarrow> \<not> isLoginCall c"
  by (cases c) auto


section \<open>Properties of getBrowser and getOpenAIAuth\<close>

subsection \<open>The proxy argument\<close>

lemma split_takeWhile:
  "split sep s =
     takeWhile (\<lambda>c. c \<noteq> sep) s #
     (if sep \<in> set s then split sep (tl (dropWhile (\<lambda>c. c \<noteq> sep) s)) else [])"
  by (induction s) (auto split: list.splits)

lemma ipPort_with_at:
  "CHR ''@'' \<in> set s \<Longrightarrow>
   ipPort s = takeWhile (\<lambda>c. c \<noteq> CHR ''@'') (substringAfterFirstAt s)"
proof -
  assume at: "CHR ''@'' \<in> set s"
  let ?rest = "tl (dropWhile (\<lambda>c. c \<noteq> CHR ''@'') s)"
  from at split_takeWhile [of "CHR ''@''" s]
  have 1: "split (CHR ''@'') s = takeWhile (\<lambda>c. c \<noteq> CHR ''@'') s # split (CHR ''@'') ?rest"
    by simp
  from split_takeWhile [of "CHR ''@''" ?rest]
  obtain zs where 2: "split (CHR ''@'') ?rest = takeWhile (\<lambda>c. c \<noteq> CHR ''@'') ?rest # zs"
    by blast
  from at show ?thesis
    by (simp add: ipPort_def substringAfterFirstAt_def 1 2)
qed

lemma getBrowser_launches:
  "\<exists>pre post path.
     calls (snd (getBrowser e ct nk ep ps m la w)) =
       calls w @ pre @
       Launch (case la of
                 None \<Rightarrow> puppeteerArgs e (orDefault nk (NOPECHA_KEY e))
                           (orDefault ps (PROXY_SERVER e))
               | Some args' \<Rightarrow> args') path #
       post"
proof -
  let ?args = "case la of
                 None \<Rightarrow> puppeteerArgs e (orDefault nk (NOPECHA_KEY e))
                           (orDefault ps (PROXY_SERVER e))
               | Some args' \<Rightarrow> args'"
  let ?path = "case ep of None \<Rightarrow> defaultChromeExecutablePath e | Some p \<Rightarrow> p"
  let ?rest = "\<lambda>u. andThen (validateProxyIp e (launched e) m) (\<lambda>u.
    andThen (initializeNopechaExtension e (launched e) m (orDefault nk (NOPECHA_KEY e))) (\<lambda>u.
    returns (launched e)))"
  have rest: "emits (\<lambda>c. True) (?rest u)" for u
    by (rule emits_mono [where P = "tryCall True True 0"])
       (auto intro!: emits_steps emits_validateProxyIp emits_initializeNopechaExtension)
  have launch: "\<exists>post. calls (snd (andThen (await e 322 (Launch ?args ?path)) ?rest w')) =
      calls w' @ Launch ?args ?path # post" for w'
  proof (cases "throws e 322 (Launch ?args ?path)")
    case None
    from emitsD [OF rest, of "logged [Launch ?args ?path] w'"] None show ?thesis
      by (auto simp: andThen_def await_def logged_def)
  next
    case (Some err)
    then show ?thesis by (simp add: andThen_def await_def logged_def)
  qed
  let ?u = "UseRecaptchaPlugin (interpolate (orDefault ct (CAPTCHA_TOKEN e)))"
  let ?w1 = "if truthy (orDefault ct (CAPTCHA_TOKEN e)) \<and> \<not> hasRecaptchaPlugin w
             then logged [?u] (w\<lparr>hasRecaptchaPlugin := True\<rparr>) else w"
  let ?w2 = "if truthy (orDefault nk (NOPECHA_KEY e)) then ?w1\<lparr>hasNopechaExtension := True\<rparr>
             else ?w1"
  from launch [of ?w2] obtain post where
    post: "calls (snd (andThen (await e 322 (Launch ?args ?path)) ?rest ?w2)) =
      calls ?w2 @ Launch ?args ?path # post" by blast
  have w2: "calls ?w2 = calls w @
      (if truthy (orDefault ct (CAPTCHA_TOKEN e)) \<and> \<not> hasRecaptchaPlugin w then [?u] else [])"
    by (simp add: logged_def)
  have "getBrowser e ct nk ep ps m la w =
      andThen (await e 322 (Launch ?args ?path)) ?rest ?w2"
    by (simp add: getBrowser_unfold)
  with post w2 show ?thesis by (metis (no_types, lifting) append.assoc)
qed

text \<open>What the code forwards: a non-empty \<open>proxyServer\<close> gives the last launch argument.\<close>

lemma proxy_argument:
  "s \<noteq> [] \<Longrightarrow>
   puppeteerArgs e k (Some s) =
     baseArgs @
     (if truthy k
      then [''--disable-extensions-except='' @ nopechaPath e, ''--load-extension='' @ nopechaPath e]
      else []) @
     [''--proxy-server='' @ ipPort s]"
  by (simp add: puppeteerArgs_def truthy_def interpolate_def)

lemma ipPort_without_at: "CHR ''@'' \<notin> set s \<Longrightarrow> ipPort s = s"
  by (simp add: ipPort_def)

lemma ipPort_one_at:
  "CHR ''@'' \<in> set s \<Longrightarrow> CHR ''@'' \<notin> set (substringAfterFirstAt s) \<Longrightarrow>
   ipPort s = substringAfterFirstAt s"
  by (auto simp: ipPort_with_at)

lemma proxy_one_at_run:
  "getBrowser quietEnv None None None (Some ''user:pw@10.0.0.1:8080'') False None freshWorld =
     (Returns 1,
      \<lparr>hasRecaptchaPlugin = False, hasNopechaExtension = False,
       calls = [Launch (baseArgs @ [''--proxy-server=10.0.0.1:8080'']) ''/usr/bin/google-chrome'']\<rparr>)"
  by (simp add: getBrowser_def validateProxyIp_def initializeNopechaExtension_def
        puppeteerArgs_def defaultChromeExecutablePath_def ipPort_def returns_def andThen_def
        await_def logged_def truthy_def orDefault_def interpolate_def ifFlag_def quietEnv_def
        freshWorld_def)

text \<open>
  C8.  The code names the forwarded value \<open>ipPort\<close>: the host and port that follow the
  userinfo.  \<open>proxyServer.split('@')[1]\<close> is that for a string with one \<open>@\<close>.  For a string
  with a second \<open>@\<close> (here in the password) it is the piece between the first two:
  \<open>getBrowser\<close> launches with \<open>--proxy-server=ss\<close>, not with what follows the first \<open>@\<close>.
\<close>

theorem proxy_second_at_cuts_host_and_port:
  "getBrowser quietEnv None None None (Some ''user:p@ss@10.0.0.1:8080'') False None freshWorld =
     (Returns 1,
      \<lparr>hasRecaptchaPlugin = False, hasNopechaExtension = False,
       calls = [Launch (baseArgs @ [''--proxy-server=ss'']) ''/usr/bin/google-chrome'']\<rparr>) \<and>
   substringAfterFirstAt ''user:p@ss@10.0.0.1:8080'' = ''ss@10.0.0.1:8080'' \<and>
   ipPort ''user:p@ss@10.0.0.1:8080'' = ''ss''"
  by (simp add: getBrowser_def validateProxyIp_def initializeNopechaExtension_def
        puppeteerArgs_def defaultChromeExecutablePath_def ipPort_def returns_def andThen_def
        await_def logged_def truthy_def orDefault_def interpolate_def ifFlag_def quietEnv_def
        freshWorld_def substringAfterFirstAt_def)

subsection \<open>Concrete runs\<close>

lemma check_no_banner:
  "checkForChatGPTAtCapacity opts (bannerFor 0) =
     (Inr (), [Query ''text=Verify you are human'', Query ''.hcaptcha-box'', XPath capacityXPath])"
  by (simp add: checkForChatGPTAtCapacity_def loop_no_banner)

lemmas run_defs =
  getOpenAIAuth_def tryBlock_def finallyBlock_def acquireBrowser_def acquirePage_def
  authBody_def solveFoundRecaptchas_def getBrowser_def validateProxyIp_def
  initializeNopechaExtension_def firstPageOrNew_def capacityCheck_def puppeteerArgs_def
  defaultChromeExecutablePath_def authTimeout_def returns_def raise_def andThen_def
  await_def delay_def rethrowAs_def ifFlag_def logged_def truthy_def orDefault_def
  interpolate_def check_no_banner

lemma quiet_run:
  "getOpenAIAuth quietEnv noArgs freshWorld =
     (Returns (authInfo ''Mozilla/5.0'' [clearanceCookie]),
      \<lparr>hasRecaptchaPlugin = False, hasNopechaExtension = False,
       calls =
         [Launch baseArgs ''/usr/bin/google-chrome'', UserAgent 1, Pages 1,
          SetDefaultTimeout 120000, Goto ''https://chat.openai.com/auth/login'',
          Probe (Query ''text=Verify you are human''), Probe (Query ''.hcaptcha-box''),
          Probe (XPath capacityXPath), Pause 2000,
          Probe (Query ''text=Verify you are human''), Probe (Query ''.hcaptcha-box''),
          Probe (XPath capacityXPath), Cookies, CloseBrowser 1]\<rparr>)"
  by (simp add: run_defs quietEnv_def noArgs_def freshWorld_def)

lemma proxy_mismatch_run:
  "getOpenAIAuth proxyMismatchEnv noArgs freshWorld =
     (Throws (JsError ''Proxy IP mismatch: 198.51.100.9 !== 203.0.113.7''),
      \<lparr>hasRecaptchaPlugin = False, hasNopechaExtension = False,
       calls = [Launch baseArgs ''/usr/bin/google-chrome'', Pages 1,
                EvaluateFetch ''https://ifconfig.co'']\<rparr>)"
  by (simp add: run_defs proxyMismatchEnv_def quietEnv_def noArgs_def freshWorld_def)

lemma logged_in_run:
  "getOpenAIAuth loggedInEnv ownBrowserAndPage freshWorld =
     (Returns (authInfo ''Mozilla/5.0'' [clearanceCookie, sessionCookie]),
      \<lparr>hasRecaptchaPlugin = False, hasNopechaExtension = False,
       calls =
         [UserAgent 3, Goto ''https://chat.openai.com/auth/login'',
          Probe (Query ''text=Verify you are human''), Probe (Query ''.hcaptcha-box''),
          Probe (XPath capacityXPath), Pause 2000,
          Probe (Query ''text=Verify you are human''), Probe (Query ''.hcaptcha-box''),
          Probe (XPath capacityXPath), Cookies]\<rparr>)"
  by (simp add: run_defs loggedInEnv_def quietEnv_def ownBrowserAndPage_def noArgs_def
        freshWorld_def)

subsection \<open>Closing what was acquired, and nothing else\<close>

text \<open>
  What the \<open>finally\<close> block achieves: when \<open>getBrowser\<close> has returned a browser, every exit
  of \<open>getOpenAIAuth\<close> closes it last; when the caller gave a browser and no page, the page
  the function took is closed last.
\<close>

lemma acquired_resources_closed:
  assumes "tryBlock e args w = (b', p', r, w1)" and "r \<noteq> Hangs"
  shows "browser args = None \<Longrightarrow> b' = Some b \<Longrightarrow>
           calls (snd (getOpenAIAuth e args w)) = calls w1 @ [CloseBrowser b]"
    and "browser args \<noteq> None \<Longrightarrow> page args = None \<Longrightarrow> p' = Some p \<Longrightarrow>
           calls (snd (getOpenAIAuth e args w)) = calls w1 @ [ClosePage p]"
  using getOpenAIAuth_calls [OF assms(1)] assms(2)
  by (auto simp: finallyBlock_calls)

text \<open>
  C4.  The \<open>finally\<close> block closes the browser only through the local \<open>browser\<close>, which is
  assigned when \<open>getBrowser\<close> returns.  \<open>getBrowser\<close> launches the browser first and can
  throw afterwards (here: the proxy check finds another address); then \<open>getOpenAIAuth\<close>
  throws with the launched browser never closed.
\<close>

theorem launched_browser_not_closed_when_getBrowser_throws:
  "browser noArgs = None \<and>
   fst (getOpenAIAuth proxyMismatchEnv noArgs freshWorld) =
     Throws (JsError ''Proxy IP mismatch: 198.51.100.9 !== 203.0.113.7'') \<and>
   callsOf proxyMismatchEnv noArgs freshWorld =
     [Launch baseArgs ''/usr/bin/google-chrome'', Pages 1, EvaluateFetch ''https://ifconfig.co''] \<and>
   launched proxyMismatchEnv = 1 \<and>
   CloseBrowser 1 \<notin> set (callsOf proxyMismatchEnv noArgs freshWorld)"
  by (simp add: callsOf_def proxy_mismatch_run)
     (simp add: noArgs_def freshWorld_def proxyMismatchEnv_def quietEnv_def)

text \<open>
  C10.  A run of \<open>getOpenAIAuth\<close> that was given a browser never calls \<open>browser.close()\<close>,
  and a run that was given a page never calls \<open>page.close()\<close>, whether it returns, throws
  or never settles; given both, it makes no closing call at all.
\<close>

theorem supplied_browser_and_page_stay_open:
  "(browser args \<noteq> None \<longrightarrow> (\<forall>b. CloseBrowser b \<notin> set (callsOf e args w))) \<and>
   (page args \<noteq> None \<longrightarrow> (\<forall>p. ClosePage p \<notin> set (callsOf e args w))) \<and>
   (browser args \<noteq> None \<and> page args \<noteq> None \<longrightarrow>
      list_all (\<lambda>c. \<not> isClose c) (callsOf e args w))"
proof -
  obtain b' p' r w1 where t: "tryBlock e args w = (b', p', r, w1)"
    by (cases "tryBlock e args w") auto
  from callsOf_split [OF t] obtain cs fin where
    c: "callsOf e args w = cs @ fin"
    "list_all (tryCall (truthy (email args) \<and> truthy (password args)) (page args = None) (authTimeout args)) cs"
    and fin: "fin = [] \<or>
      r \<noteq> Hangs \<and> browser args = None \<and> (\<exists>b. b' = Some b \<and> fin = [CloseBrowser b]) \<or>
      r \<noteq> Hangs \<and> browser args \<noteq> None \<and> p' \<noteq> page args \<and> (\<exists>p. p' = Some p \<and> fin = [ClosePage p])"
    by blast
  from c(2) have cs: "\<forall>c \<in> set cs. \<not> isClose c"
    by (auto simp: list_all_iff dest: tryCall_not_close)
  have 1: "\<forall>b. CloseBrowser b \<notin> set (callsOf e args w)" if "browser args \<noteq> None"
    using that c(1) cs fin by auto
  have 2: "\<forall>p. ClosePage p \<notin> set (callsOf e args w)" if "page args \<noteq> None"
  proof -
    from that obtain p where "page args = Some p" by auto
    from tryBlock_page_given [OF this t] this have "p' = page args" by simp
    with c(1) cs fin show ?thesis by auto
  qed
  have 3: "list_all (\<lambda>c. \<not> isClose c) (callsOf e args w)"
    if "browser args \<noteq> None \<and> page args \<noteq> None"
  proof -
    from that obtain p where "page args = Some p" by auto
    from tryBlock_page_given [OF this t] this have "p' = page args" by simp
    with c(1) cs fin that show ?thesis by (auto simp: list_all_iff)
  qed
  from 1 2 3 show ?thesis by blast
qed

theorem supplied_browser_and_page_stay_open_witness:
  "browser ownBrowserAndPage \<noteq> None \<and> page ownBrowserAndPage \<noteq> None \<and>
   CloseBrowser 3 \<notin> set (callsOf quietEnv ownBrowserAndPage freshWorld) \<and>
   ClosePage 4 \<notin> set (callsOf quietEnv ownBrowserAndPage freshWorld) \<and>
   list_all (\<lambda>c. \<not> isClose c) (callsOf quietEnv ownBrowserAndPage freshWorld)"
  using supplied_browser_and_page_stay_open [of ownBrowserAndPage quietEnv freshWorld]
  by (simp add: ownBrowserAndPage_def noArgs_def)

subsection \<open>The returned record\<close>

lemma andThen_Returns:
  "andThen m f w = (Returns y, w') \<Longrightarrow> \<exists>x w1. m w = (Returns x, w1) \<and> f x w1 = (Returns y, w')"
  by (cases "m w") (auto simp: andThen_def split: outcome.splits)

lemma authBody_Returns:
  "authBody e args w = (Returns auth, w') \<Longrightarrow> auth = authInfo (browserUserAgent e) (pageCookies e)"
  unfolding authBody_def
  by (auto dest!: andThen_Returns simp: returns_def)

lemma tryBlock_Returns:
  assumes "tryBlock e args w = (b', p', Returns auth, w')"
  shows "auth = authInfo (browserUserAgent e) (pageCookies e)"
proof -
  obtain r1 w1 where a: "acquireBrowser e args w = (r1, w1)"
    by (cases "acquireBrowser e args w")
  show ?thesis
  proof (cases r1)
    case (Returns b)
    obtain r2 w2 where u: "await e 90 (UserAgent b) w1 = (r2, w2)"
      by (cases "await e 90 (UserAgent b) w1")
    show ?thesis
    proof (cases r2)
      case r2: (Returns x)
      obtain pg r3 w3 where pg: "acquirePage e args b w2 = (pg, r3, w3)"
        by (cases "acquirePage e args b w2") auto
      obtain r4 w4 where b: "authBody e args w3 = (r4, w4)"
        by (cases "authBody e args w3")
      from assms a Returns u r2 pg b have "r3 = Returns () \<and> r4 = Returns auth"
        by (cases r3) (simp_all add: tryBlock_def)
      with b authBody_Returns show ?thesis by blast
    qed (use assms a Returns u in \<open>simp_all add: tryBlock_def\<close>)
  qed (use assms a in \<open>simp_all add: tryBlock_def\<close>)
qed

lemma getOpenAIAuth_Returns:
  assumes "fst (getOpenAIAuth e args w) = Returns auth"
  shows "auth = authInfo (browserUserAgent e) (pageCookies e)"
proof -
  obtain b' p' r w1 where t: "tryBlock e args w = (b', p', r, w1)"
    by (cases "tryBlock e args w") auto
  obtain r' w2 where f: "finallyBlock e args b' p' w1 = (r', w2)"
    by (cases "finallyBlock e args b' p' w1")
  from assms t f have "r = Returns auth"
    by (cases r; cases r') (simp_all add: getOpenAIAuth_def)
  with t tryBlock_Returns show ?thesis by blast
qed

text \<open>The \<open>reduce\<close> keeps, for each name, the last cookie of that name.\<close>

lemma cookiesByName_snoc:
  "cookiesByName (cs @ [c]) = (cookiesByName cs)(cookieName c \<mapsto> c)"
  by (simp add: cookiesByName_def)

lemma cookiesByName_last:
  "cookiesByName cs n =
     (case filter (\<lambda>c. cookieName c = n) cs of [] \<Rightarrow> None | x # xs \<Rightarrow> Some (last (x # xs)))"
proof (induction cs rule: rev_induct)
  case Nil
  then show ?case by (simp add: cookiesByName_def)
next
  case (snoc c cs)
  then show ?case
    by (cases "filter (\<lambda>c. cookieName c = n) cs") (auto simp: cookiesByName_snoc)
qed

lemma cookiesByName_Some_iff:
  "cookiesByName cs n \<noteq> None \<longleftrightarrow> (\<exists>c \<in> set cs. cookieName c = n)"
proof -
  have "cookiesByName cs n \<noteq> None \<longleftrightarrow> filter (\<lambda>c. cookieName c = n) cs \<noteq> []"
    by (simp add: cookiesByName_last split: list.splits)
  also have "\<dots> \<longleftrightarrow> (\<exists>c \<in> set cs. cookieName c = n)"
    by (simp add: filter_empty_conv)
  finally show ?thesis .
qed

text \<open>
  What a run that returns yields: the browser's user agent, the cookies of the page keyed
  by name, and as tokens the values of the two cookies, each missing when the page has no
  such cookie.  Without email or password the run makes none of the login branch's calls.
\<close>

lemma auth_record_from_cookies:
  assumes "fst (getOpenAIAuth e args w) = Returns auth"
  shows "userAgent auth = browserUserAgent e"
    and "clearanceToken auth = map_option cookieValue (cookies auth ''cf_clearance'')"
    and "sessionToken auth =
           map_option cookieValue (cookies auth ''__Secure-next-auth.session-token'')"
    and "cookies auth = cookiesByName (pageCookies e)"
    and "sessionToken auth \<noteq> None \<longleftrightarrow>
           (\<exists>c \<in> set (pageCookies e). cookieName c = ''__Secure-next-auth.session-token'')"
  using getOpenAIAuth_Returns [OF assms] cookiesByName_Some_iff [of "pageCookies e"]
  by (simp_all add: authInfo_def)

lemma no_login_without_credentials:
  assumes "\<not> (truthy (email args) \<and> truthy (password args))"
  shows "list_all (\<lambda>c. \<not> isLoginCall c) (callsOf e args w)"
proof -
  obtain b' p' r w1 where t: "tryBlock e args w = (b', p', r, w1)"
    by (cases "tryBlock e args w") auto
  from callsOf_split [OF t] assms obtain cs fin where
    c: "callsOf e args w = cs @ fin" "list_all (tryCall False (page args = None) (authTimeout args)) cs"
    and fin: "fin = [] \<or> (\<exists>b. fin = [CloseBrowser b]) \<or> (\<exists>p. fin = [ClosePage p])"
    by auto
  from c(2) have "\<forall>c \<in> set cs. \<not> isLoginCall c"
    by (auto simp: list_all_iff dest: tryCall_not_login)
  with c(1) fin show ?thesis by (auto simp: list_all_iff)
qed

text \<open>
  C5.  The documentation of \<open>getOpenAIAuth\<close> says that without \<open>email\<close> and \<open>password\<close> it
  will just return a valid \<open>clearanceToken\<close>.  The tokens are read from \<open>page.cookies()\<close>
  on both branches: called without \<open>email\<close> and \<open>password\<close> on the caller's own browser and
  page, whose session is logged in, the function makes no call of the login branch and
  returns the clearance token together with the session token of that page.
\<close>

theorem session_token_returned_without_credentials:
  "email ownBrowserAndPage = None \<and> password ownBrowserAndPage = None \<and>
   browser ownBrowserAndPage = Some 3 \<and> page ownBrowserAndPage = Some 4 \<and>
   pageCookies loggedInEnv = [clearanceCookie, sessionCookie] \<and>
   fst (getOpenAIAuth loggedInEnv ownBrowserAndPage freshWorld) =
     Returns (authInfo ''Mozilla/5.0'' [clearanceCookie, sessionCookie]) \<and>
   callsOf loggedInEnv ownBrowserAndPage freshWorld =
     [UserAgent 3, Goto ''https://chat.openai.com/auth/login'',
      Probe (Query ''text=Verify you are human''), Probe (Query ''.hcaptcha-box''),
      Probe (XPath capacityXPath), Pause 2000,
      Probe (Query ''text=Verify you are human''), Probe (Query ''.hcaptcha-box''),
      Probe (XPath capacityXPath), Cookies] \<and>
   clearanceToken (authInfo ''Mozilla/5.0'' [clearanceCookie, sessionCookie]) = Some ''cf-token'' \<and>
   sessionToken (authInfo ''Mozilla/5.0'' [clearanceCookie, sessionCookie]) =
     Some ''session-token''"
  by (simp add: callsOf_def logged_in_run)
     (simp add: ownBrowserAndPage_def noArgs_def loggedInEnv_def quietEnv_def freshWorld_def
        authInfo_def cookiesByName_def clearanceCookie_def sessionCookie_def)

subsection \<open>Runs that log in\<close>





subsection \<open>Calls a returning run has made\<close>

























subsection \<open>The default timeout\<close>




end
